theory Spec2Isabelle
  imports
    Main
    "HOL-Library.Sublist"
    "HOL-Library.List_Lexorder"
    "HOL-Library.Char_ord"
    "HOL-Library.AList"
begin

section \<open>JavaScript values\<close>

text \<open>
  A JavaScript \<open>Date\<close> is its time value in milliseconds since the epoch; \<open>None\<close> is an
  Invalid Date, whose time value is NaN. The operator \<open><\<close> on two dates compares the time
  values, and every comparison with NaN is false.
\<close>

type_synonym Date = "int option"

definition Date_lt :: "Date \<Rightarrow> Date \<Rightarrow> bool" where
  "Date_lt a b = (case a of None \<Rightarrow> False | Some x \<Rightarrow> (case b of None \<Rightarrow> False | Some y \<Rightarrow> x < y))"

text \<open>
  A string-valued property that may be \<open>null\<close> or \<open>undefined\<close> is a \<open>string option\<close>.
  \<open>null\<close>, \<open>undefined\<close> and the empty string are falsy; \<open>a || b\<close> is \<open>b\<close> exactly then.
\<close>

definition truthy :: "string option \<Rightarrow> bool" where
  "truthy a = (case a of None \<Rightarrow> False | Some s \<Rightarrow> s \<noteq> [])"

definition or_else :: "string option \<Rightarrow> string \<Rightarrow> string" where
  "or_else a b = (case a of None \<Rightarrow> b | Some s \<Rightarrow> if s = [] then b else s)"

text \<open>
  \<open>String.prototype.toLowerCase\<close> on the ASCII letters (characters are bytes here) and
  \<open>String.prototype.includes\<close>, the test for a contiguous substring.
\<close>

definition lower_char :: "char \<Rightarrow> char" where
  "lower_char c = (let n = of_char c :: nat in if 65 \<le> n \<and> n \<le> 90 then char_of (n + 32) else c)"

definition toLowerCase :: "string \<Rightarrow> string" where
  "toLowerCase s = map lower_char s"

definition str_includes :: "string \<Rightarrow> string \<Rightarrow> bool" where
  "str_includes text w = sublist w text"

section \<open>Data model\<close>

datatype EventType = ASSIGNMENT | EXAM | QUIZ | PROJECT | OTHER

datatype EventStatus = UPCOMING | OVERDUE | COMPLETED

record RecurrenceRule =
  frequency :: string
  interval :: nat
  until :: "Date option"

text \<open>The interface \<open>CalendarEvent\<close> of \<open>calendar-event.model.ts\<close>; it has no \<open>dueDate\<close>.\<close>

record CalendarEvent =
  ev_id :: string
  ev_title :: string
  ev_description :: string
  ev_startDate :: Date
  ev_endDate :: Date
  ev_eventType :: EventType
  ev_courseId :: string
  ev_courseName :: string
  ev_courseColor :: string
  ev_location :: "string option"
  ev_status :: EventStatus
  ev_isAllDay :: bool
  ev_recurrence :: "RecurrenceRule option"
  ev_rawIcsData :: string

text \<open>The interface \<open>Course\<close> of \<open>course.model.ts\<close>.\<close>

record Course =
  co_id :: string
  co_name :: string
  co_color :: string
  co_isActive :: bool
  co_importedDate :: Date
  co_eventCount :: nat
  co_icsFileName :: string

record ImportError =
  err_line :: "nat option"
  err_message :: string
  err_severity :: string

text \<open>
  \<open>IcsImportResult\<close>, with the property \<open>events\<close> that \<open>parseIcsFile\<close> attaches to the
  result on its normal path only (\<open>None\<close>: the property was never set).
\<close>

record IcsImportResult =
  res_success :: bool
  res_fileName :: string
  res_courseId :: string
  res_courseName :: string
  res_eventsImported :: nat
  res_errors :: "ImportError list"
  res_warnings :: "string list"
  res_events :: "CalendarEvent list option"

section \<open>Event classification (IcsParserService)\<close>

definition detectEventType :: "string \<Rightarrow> string \<Rightarrow> EventType" where
  "detectEventType summary description =
     (let text = toLowerCase (summary @ '' '' @ description) in
      if str_includes text ''exam'' \<or> str_includes text ''test''
         \<or> str_includes text ''midterm'' \<or> str_includes text ''final'' then EXAM
      else if str_includes text ''quiz'' then QUIZ
      else if str_includes text ''project'' then PROJECT
      else if str_includes text ''assignment'' \<or> str_includes text ''homework''
         \<or> str_includes text ''hw'' then ASSIGNMENT
      else OTHER)"

definition determineEventStatus :: "Date \<Rightarrow> Date \<Rightarrow> EventStatus" where
  "determineEventStatus endDate now = (if Date_lt endDate now then OVERDUE else UPCOMING)"

text \<open>
  The classifier as the specification words it, with a third argument \<open>isCompleted\<close>;
  the source has no function of this shape. It is compared with \<open>determineEventStatus\<close> below.
\<close>

definition classifyStatus_spec :: "Date \<Rightarrow> Date \<Rightarrow> bool \<Rightarrow> EventStatus" where
  "classifyStatus_spec endDate now isCompleted =
     (if isCompleted then COMPLETED else if Date_lt endDate now then OVERDUE else UPCOMING)"

section \<open>The calendar text parser (IcsParserService)\<close>

text \<open>
  What the library ical.js shows of one VEVENT through \<open>ICAL.Event\<close>: the accessors the
  parser reads. \<open>startDate\<close> and \<open>endDate\<close> are \<open>null\<close> (\<open>None\<close>) when the entry has no
  usable date property; calling \<open>toJSDate\<close> on \<open>null\<close> throws a TypeError.
\<close>

record ICAL_Time =
  t_toJSDate :: Date
  t_isDate :: bool

record ICAL_Recur =
  rr_freq :: "string option"
  rr_interval :: nat
  rr_until :: "ICAL_Time option"

record ICAL_Event =
  i_uid :: "string option"
  i_summary :: "string option"
  i_description :: "string option"
  i_startDate :: "ICAL_Time option"
  i_endDate :: "ICAL_Time option"
  i_location :: "string option"
  i_rrule :: "ICAL_Recur option"
  i_toString :: string

text \<open>
  The library enters as a function \<open>ICAL\<close>: \<open>ICAL.parse\<close> followed by
  \<open>getAllSubcomponents('vevent')\<close>, with \<open>Inl\<close> the message of the exception it throws.
  What differs from one call of \<open>parseIcsFile\<close> to the next is a \<open>ParserEnv\<close>: the
  clock read by \<open>new Date()\<close> and the identifier returned by \<open>generateUniqueId()\<close> while
  the entry at a given index is converted.
\<close>

type_synonym ICAL = "string \<Rightarrow> string + ICAL_Event list"

record ParserEnv =
  now_at :: "nat \<Rightarrow> Date"
  uniqueId_at :: "nat \<Rightarrow> string"

definition extractRecurrence :: "ICAL_Event \<Rightarrow> RecurrenceRule option" where
  "extractRecurrence icalEvent =
     (case i_rrule icalEvent of
        None \<Rightarrow> None
      | Some rruleValue \<Rightarrow>
          (case rr_freq rruleValue of
             None \<Rightarrow> None
           | Some freq \<Rightarrow>
               Some \<lparr> frequency = toLowerCase freq,
                      interval = (if rr_interval rruleValue = 0 then 1 else rr_interval rruleValue),
                      until = map_option t_toJSDate (rr_until rruleValue) \<rparr>))"

definition transformToCalendarEvent ::
  "Date \<Rightarrow> string \<Rightarrow> ICAL_Event \<Rightarrow> string \<Rightarrow> string \<Rightarrow> string \<Rightarrow> string + CalendarEvent" where
  "transformToCalendarEvent now freshId icalEvent courseId courseName courseColor =
     (case i_startDate icalEvent of
        None \<Rightarrow> Inl ''Cannot read properties of null (reading 'toJSDate')''
      | Some start \<Rightarrow>
          (case i_endDate icalEvent of
             None \<Rightarrow> Inl ''Cannot read properties of null (reading 'toJSDate')''
           | Some end \<Rightarrow>
               Inr \<lparr> ev_id = or_else (i_uid icalEvent) freshId,
                     ev_title = or_else (i_summary icalEvent) ''Untitled Event'',
                     ev_description = or_else (i_description icalEvent) [],
                     ev_startDate = t_toJSDate start,
                     ev_endDate = t_toJSDate end,
                     ev_eventType = detectEventType (or_else (i_summary icalEvent) [])
                                      (or_else (i_description icalEvent) []),
                     ev_courseId = courseId,
                     ev_courseName = courseName,
                     ev_courseColor = courseColor,
                     ev_location = (if truthy (i_location icalEvent) then i_location icalEvent else None),
                     ev_status = determineEventStatus (t_toJSDate end) now,
                     ev_isAllDay = t_isDate start,
                     ev_recurrence = extractRecurrence icalEvent,
                     ev_rawIcsData = i_toString icalEvent \<rparr>))"

text \<open>
  The body of \<open>vevents.forEach((vevent, index) => ...)\<close>: a converted entry is pushed on
  \<open>events\<close>, a failing one pushes an error with \<open>line = index + 1\<close> and is skipped.
\<close>

fun forEach_vevent ::
  "ParserEnv \<Rightarrow> string \<Rightarrow> string \<Rightarrow> string \<Rightarrow> nat \<Rightarrow> ICAL_Event list \<Rightarrow>
   CalendarEvent list \<times> ImportError list \<Rightarrow> CalendarEvent list \<times> ImportError list" where
  "forEach_vevent env courseId courseName courseColor index [] acc = acc"
| "forEach_vevent env courseId courseName courseColor index (vevent # rest) (events, errors) =
     (case transformToCalendarEvent (now_at env index) (uniqueId_at env index) vevent
             courseId courseName courseColor of
        Inr calendarEvent \<Rightarrow>
          forEach_vevent env courseId courseName courseColor (Suc index) rest
            (events @ [calendarEvent], errors)
      | Inl msg \<Rightarrow>
          forEach_vevent env courseId courseName courseColor (Suc index) rest
            (events, errors @ [\<lparr> err_line = Some (index + 1),
                                 err_message = ''Failed to parse event: '' @ msg,
                                 err_severity = ''error'' \<rparr>]))"

definition parseIcsFile ::
  "ICAL \<Rightarrow> ParserEnv \<Rightarrow> string \<Rightarrow> string \<Rightarrow> string \<Rightarrow> string \<Rightarrow> string \<Rightarrow> IcsImportResult" where
  "parseIcsFile ical env fileContent courseId courseName courseColor fileName =
     (let result = \<lparr> res_success = False, res_fileName = fileName, res_courseId = courseId,
                      res_courseName = courseName, res_eventsImported = 0, res_errors = [],
                      res_warnings = [], res_events = None \<rparr>
      in case ical fileContent of
           Inl msg \<Rightarrow>
             result \<lparr> res_success := False,
                      res_errors := res_errors result @
                        [\<lparr> err_line = None, err_message = ''Failed to parse ICS file: '' @ msg,
                           err_severity = ''error'' \<rparr>] \<rparr>
         | Inr vevents \<Rightarrow>
             (let result1 = (if length vevents = 0
                             then result \<lparr> res_warnings := res_warnings result @ [''No events found in ICS file''] \<rparr>
                             else result);
                  (events, errors) = forEach_vevent env courseId courseName courseColor 0 vevents
                                       ([], res_errors result1)
              in result1 \<lparr> res_errors := errors,
                           res_eventsImported := length events,
                           res_success := (length events > 0),
                           res_events := Some events \<rparr>))"

section \<open>The store (Dexie tables)\<close>

text \<open>
  A Dexie table with primary key \<open>id\<close> is the list of its records in increasing order of
  the key, which is the order \<open>toArray()\<close> returns them in. \<open>put\<close> replaces the record
  with the same key or inserts; \<open>add\<close> rejects with a ConstraintError when the key is
  present; \<open>update\<close> changes the record with that key if there is one.
\<close>

fun table_put :: "('a \<Rightarrow> string) \<Rightarrow> 'a \<Rightarrow> 'a list \<Rightarrow> 'a list" where
  "table_put key x [] = [x]"
| "table_put key x (y # t) =
     (if key x < key y then x # y # t
      else if key x = key y then x # t
      else y # table_put key x t)"

definition table_has :: "('a \<Rightarrow> string) \<Rightarrow> string \<Rightarrow> 'a list \<Rightarrow> bool" where
  "table_has key i t = (i \<in> set (map key t))"

definition table_get :: "('a \<Rightarrow> string) \<Rightarrow> string \<Rightarrow> 'a list \<Rightarrow> 'a option" where
  "table_get key i t = find (\<lambda>x. key x = i) t"

definition table_add :: "('a \<Rightarrow> string) \<Rightarrow> 'a \<Rightarrow> 'a list \<Rightarrow> string + 'a list" where
  "table_add key x t =
     (if table_has key (key x) t then Inl ''ConstraintError: Key already exists in the object store.''
      else Inr (table_put key x t))"

definition table_update :: "('a \<Rightarrow> string) \<Rightarrow> string \<Rightarrow> ('a \<Rightarrow> 'a) \<Rightarrow> 'a list \<Rightarrow> 'a list" where
  "table_update key i changes t = map (\<lambda>x. if key x = i then changes x else x) t"

definition table_bulkPut :: "('a \<Rightarrow> string) \<Rightarrow> 'a list \<Rightarrow> 'a list \<Rightarrow> 'a list" where
  "table_bulkPut key xs t = foldl (\<lambda>t x. table_put key x t) t xs"

definition table_bulkDelete :: "('a \<Rightarrow> string) \<Rightarrow> string list \<Rightarrow> 'a list \<Rightarrow> 'a list" where
  "table_bulkDelete key ids t = filter (\<lambda>x. key x \<notin> set ids) t"

definition table_wf :: "('a \<Rightarrow> string) \<Rightarrow> 'a list \<Rightarrow> bool" where
  "table_wf key t = sorted_wrt (<) (map key t)"

text \<open>
  The state both reconciliations work on: the two tables of \<open>SchoologyCalendarDB\<close> and
  the list held by \<open>activeCourseIdsSubject\<close> of the EventManagerService (its other
  subjects are copies of the tables, reloaded after every write).
\<close>

record AppState =
  db_events :: "CalendarEvent list"
  db_courses :: "Course list"
  activeCourseIds :: "string list"

section \<open>EventManagerService\<close>

definition addCourse :: "Course \<Rightarrow> AppState \<Rightarrow> string + AppState" where
  "addCourse course s =
     (case table_add co_id course (db_courses s) of
        Inl err \<Rightarrow> Inl err
      | Inr t \<Rightarrow> Inr (s \<lparr> db_courses := t, activeCourseIds := activeCourseIds s @ [co_id course] \<rparr>))"

definition addEvents :: "CalendarEvent list \<Rightarrow> AppState \<Rightarrow> AppState" where
  "addEvents events s = s \<lparr> db_events := table_bulkPut ev_id events (db_events s) \<rparr>"

definition markEventCompleted :: "string \<Rightarrow> AppState \<Rightarrow> AppState" where
  "markEventCompleted i s =
     s \<lparr> db_events := table_update ev_id i (\<lambda>e. e \<lparr> ev_status := COMPLETED \<rparr>) (db_events s) \<rparr>"

definition toggleCourseFilter :: "string \<Rightarrow> AppState \<Rightarrow> AppState" where
  "toggleCourseFilter courseId s =
     (let currentActive = activeCourseIds s in
      if courseId \<in> set currentActive
      then s \<lparr> activeCourseIds := filter (\<lambda>i. i \<noteq> courseId) currentActive \<rparr>
      else s \<lparr> activeCourseIds := currentActive @ [courseId] \<rparr>)"

section \<open>The scraper (SchoologyScraper)\<close>

record ScrapedEvent =
  se_title :: string
  se_description :: string
  se_dueDate :: string
  se_courseId :: string
  se_courseName :: string
  se_type :: EventType

record ScrapedCourse =
  sc_id :: string
  sc_name :: string
  sc_eventCount :: nat

text \<open>
  One element selected on a course page: the trimmed text of its title, date and
  description children (\<open>None\<close>: no such child) and the \<open>datetime\<close> attribute of the date
  child.
\<close>

record EventElement =
  el_title :: "string option"
  el_dateText :: "string option"
  el_datetime :: "string option"
  el_description :: "string option"

text \<open>
  The browser the page script runs in: \<open>new Date(text)\<close>, \<open>Date.prototype.toISOString\<close> on
  a valid time value (on an Invalid Date it throws a RangeError), and the clock read by
  \<open>new Date()\<close> at the element of a given index.
\<close>

record Browser =
  Date_of_string :: "string \<Rightarrow> Date"
  toISOString :: "int \<Rightarrow> string"
  page_now :: "nat \<Rightarrow> Date"

text \<open>The conditional expression that computes \<open>type\<close> in \<open>getCourseCalendar\<close>.\<close>

definition scrapedType :: "string \<Rightarrow> EventType" where
  "scrapedType title =
     (if str_includes (toLowerCase title) ''exam'' \<or> str_includes (toLowerCase title) ''test'' then EXAM
      else if str_includes (toLowerCase title) ''quiz'' then QUIZ
      else if str_includes (toLowerCase title) ''project'' then PROJECT
      else ASSIGNMENT)"

text \<open>
  The body of \<open>eventElements.forEach\<close>: \<open>None\<close> when nothing is pushed (no title element,
  or the exception of \<open>toISOString\<close> caught by the inner \<open>try\<close>).
\<close>

definition scrapeElement :: "Browser \<Rightarrow> nat \<Rightarrow> string \<Rightarrow> string \<Rightarrow> EventElement \<Rightarrow> ScrapedEvent option" where
  "scrapeElement br index cId cName element =
     (case el_title element of
        None \<Rightarrow> None
      | Some title \<Rightarrow>
          (let dateText = (case el_dateText element of None \<Rightarrow> [] | Some t \<Rightarrow> t);
               description = (case el_description element of None \<Rightarrow> [] | Some d \<Rightarrow> d);
               dueDate = (if el_dateText element \<noteq> None \<and> truthy (el_datetime element)
                          then Date_of_string br (the (el_datetime element))
                          else if dateText \<noteq> [] then Date_of_string br dateText
                          else page_now br index)
           in case dueDate of
                None \<Rightarrow> None
              | Some ms \<Rightarrow>
                  Some \<lparr> se_title = title, se_description = description,
                         se_dueDate = toISOString br ms, se_courseId = cId,
                         se_courseName = cName, se_type = scrapedType title \<rparr>))"

fun scrapeElements :: "Browser \<Rightarrow> nat \<Rightarrow> string \<Rightarrow> string \<Rightarrow> EventElement list \<Rightarrow> ScrapedEvent list" where
  "scrapeElements br index cId cName [] = []"
| "scrapeElements br index cId cName (element # rest) =
     (case scrapeElement br index cId cName element of
        None \<Rightarrow> scrapeElements br (Suc index) cId cName rest
      | Some e \<Rightarrow> e # scrapeElements br (Suc index) cId cName rest)"

text \<open>
  \<open>getCourseCalendar\<close>: the page of the course either loads (\<open>Inr\<close> its selected elements)
  or the navigation throws or times out (\<open>Inl\<close>), and then the \<open>catch\<close> returns \<open>[]\<close>.
\<close>

definition getCourseCalendar ::
  "Browser \<Rightarrow> string + EventElement list \<Rightarrow> string \<Rightarrow> string \<Rightarrow> ScrapedEvent list" where
  "getCourseCalendar br page courseId courseName =
     (case page of
        Inl error \<Rightarrow> []
      | Inr elements \<Rightarrow> scrapeElements br 0 courseId courseName elements)"

text \<open>
  The loop of \<open>scrapeAllData\<close> over the enrolled courses, each given as its id, its name
  and what loading its page gives.
\<close>

fun scrapeCourses ::
  "Browser \<Rightarrow> (string \<times> string \<times> (string + EventElement list)) list \<Rightarrow>
   ScrapedCourse list \<times> ScrapedEvent list" where
  "scrapeCourses br [] = ([], [])"
| "scrapeCourses br ((cid, cname, page) # rest) =
     (let events = getCourseCalendar br page cid cname;
          (courseData, allEvents) = scrapeCourses br rest
      in (\<lparr> sc_id = cid, sc_name = cname, sc_eventCount = length events \<rparr> # courseData,
          events @ allEvents))"

section \<open>Scrape reconciliation (SyncService)\<close>

definition colorPalette :: "string list" where
  "colorPalette =
     [''#FF6B6B'', ''#4ECDC4'', ''#45B7D1'', ''#FFA07A'', ''#98D8C8'',
      ''#6C5CE7'', ''#A29BFE'', ''#FD79A8'', ''#FDCB6E'', ''#E17055'',
      ''#74B9FF'', ''#A29BFE'', ''#00B894'', ''#00CEC9'', ''#FF7675'']"

text \<open>
  What one run of \<open>processScrapedData\<close> reads from outside: \<open>new Date(text)\<close>, the clock at
  the course and at the event of a given index, the value \<open>generateUniqueId()\<close> returns
  there, the index \<open>Math.floor(Math.random() * colorPalette.length)\<close> (taken modulo the
  length, as it is always below it) and \<open>JSON.stringify\<close>.
\<close>

record SyncEnv =
  sync_Date_of_string :: "string \<Rightarrow> Date"
  sync_course_now :: "nat \<Rightarrow> Date"
  sync_event_now :: "nat \<Rightarrow> Date"
  sync_uniqueId :: "nat \<Rightarrow> string"
  sync_random :: "nat \<Rightarrow> nat"
  sync_stringify :: "ScrapedEvent \<Rightarrow> string"

text \<open>
  \<open>generateEventKey\<close> is one function applied to objects of two shapes. Its third
  argument is the property \<open>dueDate\<close> of the object, \<open>None\<close> when the object has none; the
  template literal then prints \<open>undefined\<close>.
\<close>

definition generateEventKey :: "string \<Rightarrow> string \<Rightarrow> string option \<Rightarrow> string" where
  "generateEventKey courseId title dueDate =
     courseId @ ''-'' @ title @ ''-'' @ (case dueDate of None \<Rightarrow> ''undefined'' | Some d \<Rightarrow> d)"

definition key_of_scraped :: "ScrapedEvent \<Rightarrow> string" where
  "key_of_scraped event = generateEventKey (se_courseId event) (se_title event) (Some (se_dueDate event))"

definition key_of_stored :: "CalendarEvent \<Rightarrow> string" where
  "key_of_stored e = generateEventKey (ev_courseId e) (ev_title e) None"

text \<open>
  \<open>new Map(entries)\<close>: a later entry with a key already present replaces its value and
  keeps its place; \<open>get\<close> is \<open>map_of\<close>, \<open>values()\<close> the second components in order.
\<close>

definition Map_new :: "(string \<times> string) list \<Rightarrow> (string \<times> string) list" where
  "Map_new entries = foldl (\<lambda>m (k, v). AList.update k v m) [] entries"

definition existingEventMap :: "CalendarEvent list \<Rightarrow> (string \<times> string) list" where
  "existingEventMap existingEvents = Map_new (map (\<lambda>e. (key_of_stored e, ev_id e)) existingEvents)"

text \<open>The first loop: a course not stored yet is added, a stored one gets the new count.\<close>

fun processCourses ::
  "SyncEnv \<Rightarrow> string list \<Rightarrow> nat \<Rightarrow> ScrapedCourse list \<Rightarrow> Course list \<Rightarrow> string option \<times> Course list" where
  "processCourses env existingCourseIds i [] t = (None, t)"
| "processCourses env existingCourseIds i (course # rest) t =
     (if sc_id course \<notin> set existingCourseIds
      then (case table_add co_id
                   \<lparr> co_id = sc_id course, co_name = sc_name course,
                     co_color = colorPalette ! (i mod length colorPalette),
                     co_isActive = True, co_importedDate = sync_course_now env i,
                     co_eventCount = sc_eventCount course, co_icsFileName = ''auto-sync'' \<rparr> t of
              Inl err \<Rightarrow> (Some err, t)
            | Inr t' \<Rightarrow> processCourses env existingCourseIds (Suc i) rest t')
      else processCourses env existingCourseIds (Suc i) rest
             (table_update co_id (sc_id course)
                (\<lambda>c. c \<lparr> co_eventCount := sc_eventCount course \<rparr>) t))"

text \<open>The object \<open>calendarEvent\<close> built for one scraped event.\<close>

definition calendarEvent_of :: "SyncEnv \<Rightarrow> nat \<Rightarrow> string option \<Rightarrow> ScrapedEvent \<Rightarrow> CalendarEvent" where
  "calendarEvent_of env i existingEventId event =
     \<lparr> ev_id = or_else existingEventId (sync_uniqueId env i),
       ev_title = se_title event,
       ev_description = se_description event,
       ev_startDate = sync_Date_of_string env (se_dueDate event),
       ev_endDate = sync_Date_of_string env (se_dueDate event),
       ev_eventType = se_type event,
       ev_courseId = se_courseId event,
       ev_courseName = se_courseName event,
       ev_courseColor = colorPalette ! (sync_random env i mod length colorPalette),
       ev_location = Some [],
       ev_status = (if Date_lt (sync_Date_of_string env (se_dueDate event)) (sync_event_now env i)
                    then OVERDUE else UPCOMING),
       ev_isAllDay = True,
       ev_recurrence = None,
       ev_rawIcsData = sync_stringify env event \<rparr>"

text \<open>
  The second loop, over the scraped events, on the events table and the set
  \<open>seenEventIds\<close>. A matched event is updated with every property of \<open>calendarEvent\<close>; an
  unmatched one is added, and \<open>add\<close> throws when the generated id is already stored.
\<close>

fun processEvents ::
  "SyncEnv \<Rightarrow> (string \<times> string) list \<Rightarrow> nat \<Rightarrow> ScrapedEvent list \<Rightarrow>
   CalendarEvent list \<times> string set \<Rightarrow> string option \<times> CalendarEvent list \<times> string set" where
  "processEvents env evMap i [] (t, seenEventIds) = (None, t, seenEventIds)"
| "processEvents env evMap i (event # rest) (t, seenEventIds) =
     (let eventKey = key_of_scraped event;
          existingEventId = map_of evMap eventKey;
          calendarEvent = calendarEvent_of env i existingEventId event
      in if truthy existingEventId
         then processEvents env evMap (Suc i) rest
                (table_update ev_id (the existingEventId) (\<lambda>_. calendarEvent) t,
                 insert (the existingEventId) seenEventIds)
         else (case table_add ev_id calendarEvent t of
                 Inl err \<Rightarrow> (Some err, t, seenEventIds)
               | Inr t' \<Rightarrow> processEvents env evMap (Suc i) rest
                             (t', insert (ev_id calendarEvent) seenEventIds)))"

text \<open>
  The last step: the values of the map that were not seen are deleted in bulk, if there
  are any.
\<close>

definition deleteStale :: "(string \<times> string) list \<Rightarrow> string set \<Rightarrow> CalendarEvent list \<Rightarrow> CalendarEvent list" where
  "deleteStale evMap seenEventIds t =
     (let eventIdsToDelete = filter (\<lambda>i. i \<notin> seenEventIds) (map snd evMap)
      in if length eventIdsToDelete > 0 then table_bulkDelete ev_id eventIdsToDelete t else t)"

text \<open>
  \<open>processScrapedData\<close>. The result pairs the state the database is left in with the
  message of the exception the run ended with, if any (there is no transaction, so the
  writes before a throw stay).
\<close>

definition processScrapedData ::
  "SyncEnv \<Rightarrow> ScrapedCourse list \<Rightarrow> ScrapedEvent list \<Rightarrow> AppState \<Rightarrow> string option \<times> AppState" where
  "processScrapedData env courses events s =
     (let existingCourseIds = map co_id (db_courses s) in
      case processCourses env existingCourseIds 0 courses (db_courses s) of
        (Some err, ct) \<Rightarrow> (Some err, s \<lparr> db_courses := ct \<rparr>)
      | (None, ct) \<Rightarrow>
          (let existingEvents = db_events s;
               evMap = existingEventMap existingEvents
           in case processEvents env evMap 0 events (existingEvents, {}) of
                (Some err, et, seenEventIds) \<Rightarrow> (Some err, s \<lparr> db_courses := ct, db_events := et \<rparr>)
              | (None, et, seenEventIds) \<Rightarrow>
                  (None, s \<lparr> db_courses := ct, db_events := deleteStale evMap seenEventIds et \<rparr>)))"

text \<open>
  The ids the second loop finds for the scraped events of a batch: the truthy results of
  \<open>existingEventMap.get(eventKey)\<close>.
\<close>

definition matched_id :: "(string \<times> string) list \<Rightarrow> ScrapedEvent list \<Rightarrow> string \<Rightarrow> bool" where
  "matched_id evMap events i =
     (i \<noteq> [] \<and> (\<exists>event \<in> set events. map_of evMap (key_of_scraped event) = Some i))"

section \<open>File import (ImportComponent)\<close>

text \<open>
  A selected file: its name, what \<open>readIcsFile\<close> resolves to (\<open>Inl\<close> the message it
  rejects with) and the name \<open>extractCourseName\<close> returns for it. What differs from one
  import of the file to the next is an \<open>ImportEnv\<close>: the values returned by
  \<open>generateId()\<close> and \<open>generateRandomColor()\<close>, the clock when the course object is built,
  and the parser's surroundings.
\<close>

record SelectedFile =
  f_name :: string
  f_readIcsFile :: "string + string"
  f_courseName :: string

record ImportEnv =
  imp_generateId :: string
  imp_generateRandomColor :: string
  imp_importedDate :: Date
  imp_parser :: ParserEnv

text \<open>The two shapes of object the parse step returns for a file.\<close>

datatype ParsedResult =
    ParseOk string string string string "CalendarEvent list"
  | ParseFailed string string

record ImportResult =
  ir_fileName :: string
  ir_success :: bool
  ir_courseName :: string
  ir_eventsCount :: nat
  ir_error :: "string option"

definition parseSelectedFile :: "ICAL \<Rightarrow> ImportEnv \<Rightarrow> SelectedFile \<Rightarrow> ParsedResult" where
  "parseSelectedFile ical env file =
     (case f_readIcsFile file of
        Inl msg \<Rightarrow> ParseFailed (f_name file) msg
      | Inr content \<Rightarrow>
          (let courseName = f_courseName file;
               courseId = imp_generateId env;
               courseColor = imp_generateRandomColor env;
               parseResult = parseIcsFile ical (imp_parser env) content courseId courseName
                               courseColor (f_name file)
           in case res_events parseResult of
                Some events \<Rightarrow>
                  if res_success parseResult
                  then ParseOk (f_name file) courseId courseName courseColor events
                  else ParseFailed (f_name file)
                         (case res_errors parseResult of
                            [] \<Rightarrow> ''Failed to parse ICS file''
                          | e # _ \<Rightarrow> or_else (Some (err_message e)) ''Failed to parse ICS file'')
              | None \<Rightarrow>
                  ParseFailed (f_name file)
                    (case res_errors parseResult of
                       [] \<Rightarrow> ''Failed to parse ICS file''
                     | e # _ \<Rightarrow> or_else (Some (err_message e)) ''Failed to parse ICS file'')))"

text \<open>Step 2 of \<open>processFiles\<close>: the courses, the events and the report of the batch.\<close>

fun collectResults ::
  "(ImportEnv \<times> ParsedResult) list \<Rightarrow> Course list \<times> CalendarEvent list \<times> ImportResult list" where
  "collectResults [] = ([], [], [])"
| "collectResults ((env, ParseOk fileName courseId courseName courseColor events) # rest) =
     (case collectResults rest of
        (allCourses, allEvents, importResults) \<Rightarrow>
          (\<lparr> co_id = courseId, co_name = courseName, co_color = courseColor, co_isActive = True,
             co_importedDate = imp_importedDate env, co_eventCount = length events,
             co_icsFileName = fileName \<rparr> # allCourses,
           events @ allEvents,
           \<lparr> ir_fileName = fileName, ir_success = True, ir_courseName = courseName,
             ir_eventsCount = length events, ir_error = None \<rparr> # importResults))"
| "collectResults ((env, ParseFailed fileName error) # rest) =
     (case collectResults rest of
        (allCourses, allEvents, importResults) \<Rightarrow>
          (allCourses, allEvents,
           \<lparr> ir_fileName = fileName, ir_success = False, ir_courseName = [],
             ir_eventsCount = 0, ir_error = Some error \<rparr> # importResults))"

text \<open>Step 3: the courses are added one by one; the first \<open>add\<close> that throws ends it.\<close>

fun addAllCourses :: "Course list \<Rightarrow> AppState \<Rightarrow> string option \<times> AppState" where
  "addAllCourses [] s = (None, s)"
| "addAllCourses (course # rest) s =
     (case addCourse course s of
        Inl err \<Rightarrow> (Some err, s)
      | Inr s' \<Rightarrow> addAllCourses rest s')"

text \<open>
  Two events agree on every property except \<open>courseId\<close>, \<open>courseColor\<close> and \<open>status\<close>, the
  three a second import of the same file computes anew.
\<close>

definition same_content :: "CalendarEvent \<Rightarrow> CalendarEvent \<Rightarrow> bool" where
  "same_content e1 e2 =
     (e2 = e1 \<lparr> ev_courseId := ev_courseId e2, ev_courseColor := ev_courseColor e2,
                ev_status := ev_status e2 \<rparr>)"

text \<open>
  The same, with \<open>courseName\<close> excepted as well: an import takes it from the name
  extracted for the file, which follows the file's name when the document names no
  calendar.
\<close>

definition same_entry :: "CalendarEvent \<Rightarrow> CalendarEvent \<Rightarrow> bool" where
  "same_entry e1 e2 =
     (e2 = e1 \<lparr> ev_courseId := ev_courseId e2, ev_courseName := ev_courseName e2,
                ev_courseColor := ev_courseColor e2, ev_status := ev_status e2 \<rparr>)"

record ImportOutcome =
  out_error :: "string option"
  out_importResults :: "ImportResult list"
  out_state :: AppState

definition draftsOf :: "ICAL \<Rightarrow> (ImportEnv \<times> SelectedFile) list \<Rightarrow> Course list \<times> CalendarEvent list \<times> ImportResult list" where
  "draftsOf ical selectedFiles =
     collectResults (map (\<lambda>(env, file). (env, parseSelectedFile ical env file)) selectedFiles)"

definition processFiles :: "ICAL \<Rightarrow> (ImportEnv \<times> SelectedFile) list \<Rightarrow> AppState \<Rightarrow> ImportOutcome" where
  "processFiles ical selectedFiles s =
     (if length selectedFiles = 0
      then \<lparr> out_error = None, out_importResults = [], out_state = s \<rparr>
      else case draftsOf ical selectedFiles of
             (allCourses, allEvents, importResults) \<Rightarrow>
               if length allCourses > 0
               then (case addAllCourses allCourses s of
                       (Some err, s') \<Rightarrow>
                         \<lparr> out_error = Some (''Import failed: '' @ err),
                           out_importResults = importResults, out_state = s' \<rparr>
                     | (None, s') \<Rightarrow>
                         \<lparr> out_error = None, out_importResults = importResults,
                           out_state = addEvents allEvents s' \<rparr>)
               else \<lparr> out_error = None, out_importResults = importResults, out_state = s \<rparr>)"

section \<open>Sample inputs\<close>

text \<open>
  Concrete documents, entries and surroundings on which the properties below are
  evaluated. The instant 2024-03-10T00:00:00Z is 1710028800000 ms.
\<close>

definition time_before :: ICAL_Time where
  "time_before = \<lparr> t_toJSDate = Some 1710028799000, t_isDate = False \<rparr>"

definition time_after :: ICAL_Time where
  "time_after = \<lparr> t_toJSDate = Some 1710028801000, t_isDate = False \<rparr>"

definition vevent_hw :: ICAL_Event where
  "vevent_hw = \<lparr> i_uid = Some ''uid-hw4'', i_summary = Some ''Homework 4 Exam Prep'',
       i_description = None, i_startDate = Some time_before, i_endDate = Some time_before,
       i_location = None, i_rrule = None, i_toString = ''BEGIN:VEVENT UID:uid-hw4 END:VEVENT'' \<rparr>"

definition vevent_quiz :: ICAL_Event where
  "vevent_quiz = \<lparr> i_uid = None, i_summary = Some ''Quiz 2'',
       i_description = None, i_startDate = Some time_after, i_endDate = Some time_after,
       i_location = None, i_rrule = None, i_toString = ''BEGIN:VEVENT SUMMARY:Quiz 2 END:VEVENT'' \<rparr>"

definition vevent_broken :: ICAL_Event where
  "vevent_broken = \<lparr> i_uid = Some ''uid-broken'', i_summary = Some ''No dates'',
       i_description = None, i_startDate = None, i_endDate = None,
       i_location = None, i_rrule = None, i_toString = ''BEGIN:VEVENT UID:uid-broken END:VEVENT'' \<rparr>"

definition vevent_project :: ICAL_Event where
  "vevent_project = \<lparr> i_uid = Some ''uid-proj'', i_summary = Some ''Science fair'',
       i_description = Some ''Project poster'', i_startDate = Some time_after,
       i_endDate = Some time_after, i_location = Some ''Room 12'', i_rrule = None,
       i_toString = ''BEGIN:VEVENT UID:uid-proj END:VEVENT'' \<rparr>"

definition vevent_reading :: ICAL_Event where
  "vevent_reading = \<lparr> i_uid = Some ''uid-read'', i_summary = Some ''Read chapter 5'',
       i_description = None, i_startDate = Some time_after, i_endDate = Some time_after,
       i_location = None, i_rrule = None, i_toString = ''BEGIN:VEVENT UID:uid-read END:VEVENT'' \<rparr>"

text \<open>
  The library on four documents: one with five entries of which the third has no dates,
  one with a single entry that has a UID, one with an entry with a UID and one without,
  and an empty calendar. Any other text is not a calendar.
\<close>

definition sample_ical :: ICAL where
  "sample_ical text =
     (if text = ''doc-five'' then Inr [vevent_hw, vevent_quiz, vevent_broken, vevent_project, vevent_reading]
      else if text = ''doc-one'' then Inr [vevent_hw]
      else if text = ''doc-two'' then Inr [vevent_hw, vevent_quiz]
      else if text = ''doc-empty'' then Inr []
      else Inl ''invalid ical body'')"

definition sample_parser_env :: "string \<Rightarrow> ParserEnv" where
  "sample_parser_env tag =
     \<lparr> now_at = (\<lambda>i. Some 1710028800000),
       uniqueId_at = (\<lambda>i. ''event-'' @ tag @ ''-'' @ replicate (Suc i) CHR ''x'') \<rparr>"

definition sample_import_env :: "string \<Rightarrow> ImportEnv" where
  "sample_import_env tag =
     \<lparr> imp_generateId = ''course-'' @ tag, imp_generateRandomColor = ''#4ECDC4'',
       imp_importedDate = Some 1710028800000, imp_parser = sample_parser_env tag \<rparr>"

definition file_one :: SelectedFile where
  "file_one = \<lparr> f_name = ''math.ics'', f_readIcsFile = Inr ''doc-one'', f_courseName = ''Math'' \<rparr>"

definition file_two :: SelectedFile where
  "file_two = \<lparr> f_name = ''math.ics'', f_readIcsFile = Inr ''doc-two'', f_courseName = ''Math'' \<rparr>"

definition empty_state :: AppState where
  "empty_state = \<lparr> db_events = [], db_courses = [], activeCourseIds = [] \<rparr>"

definition sample_browser :: Browser where
  "sample_browser =
     \<lparr> Date_of_string = (\<lambda>text. if text = ''2024-03-12T09:00:00Z'' then Some 1710234000000 else None),
       toISOString = (\<lambda>ms. if ms = 1710234000000 then ''2024-03-12T09:00:00.000Z''
                            else ''2024-03-10T00:00:00.000Z''),
       page_now = (\<lambda>i. Some 1710028800000) \<rparr>"

definition element_midterm :: EventElement where
  "element_midterm = \<lparr> el_title = Some ''Midterm'', el_dateText = Some ''Mar 12'',
       el_datetime = Some ''2024-03-12T09:00:00Z'', el_description = None \<rparr>"

definition sample_sync_env :: "string \<Rightarrow> SyncEnv" where
  "sample_sync_env tag =
     \<lparr> sync_Date_of_string = (\<lambda>text. if text = ''2024-03-12T09:00:00.000Z'' then Some 1710234000000
                                      else if text = ''2024-03-19T09:00:00.000Z'' then Some 1710838800000
                                      else None),
       sync_course_now = (\<lambda>i. Some 1710028800000),
       sync_event_now = (\<lambda>i. Some 1710028800000),
       sync_uniqueId = (\<lambda>i. ''event-'' @ tag @ ''-'' @ replicate (Suc i) CHR ''x''),
       sync_random = (\<lambda>i. i),
       sync_stringify = (\<lambda>e. se_title e) \<rparr>"

text \<open>Two scraped assignments of one course with the same title, a week apart.\<close>

definition homework_12 :: ScrapedEvent where
  "homework_12 = \<lparr> se_title = ''Homework'', se_description = [],
       se_dueDate = ''2024-03-12T09:00:00.000Z'', se_courseId = ''101'',
       se_courseName = ''Math'', se_type = ASSIGNMENT \<rparr>"

definition homework_19 :: ScrapedEvent where
  "homework_19 = \<lparr> se_title = ''Homework'', se_description = [],
       se_dueDate = ''2024-03-19T09:00:00.000Z'', se_courseId = ''101'',
       se_courseName = ''Math'', se_type = ASSIGNMENT \<rparr>"

definition scraped_course :: "string \<Rightarrow> string \<Rightarrow> nat \<Rightarrow> ScrapedCourse" where
  "scraped_course cid cname n = \<lparr> sc_id = cid, sc_name = cname, sc_eventCount = n \<rparr>"

text \<open>
  States reached from the empty database: after importing \<open>math.ics\<close> with one entry, after
  the user then marks its event completed, after importing the same file again; after
  importing the two-entry file; after one sync of one scraped assignment.
\<close>

definition imported_once :: AppState where
  "imported_once = out_state (processFiles sample_ical [(sample_import_env ''a'', file_one)] empty_state)"

definition marked_completed :: AppState where
  "marked_completed = markEventCompleted ''uid-hw4'' imported_once"

definition imported_twice :: AppState where
  "imported_twice = out_state (processFiles sample_ical [(sample_import_env ''b'', file_one)] marked_completed)"

definition imported_two :: AppState where
  "imported_two = out_state (processFiles sample_ical [(sample_import_env ''a'', file_two)] empty_state)"

definition synced_once :: AppState where
  "synced_once = snd (processScrapedData (sample_sync_env ''a'') [scraped_course ''101'' ''Math'' 1]
                        [homework_12] empty_state)"

text \<open>
  The one-entry document selected again under another file name, from which another
  course name is extracted, and the state after importing it over \<open>marked_completed\<close>.
\<close>

definition file_one_renamed :: SelectedFile where
  "file_one_renamed = \<lparr> f_name = ''math (1).ics'', f_readIcsFile = Inr ''doc-one'',
                         f_courseName = ''Math (1)'' \<rparr>"

definition imported_renamed :: AppState where
  "imported_renamed = out_state (processFiles sample_ical [(sample_import_env ''b'', file_one_renamed)]
                                   marked_completed)"

definition synced_two :: AppState where
  "synced_two = snd (processScrapedData (sample_sync_env ''a'') [scraped_course ''101'' ''Math'' 2]
                       [homework_12, homework_19] empty_state)"

section \<open>Properties\<close>

subsection \<open>The course filter\<close>

text \<open>
  C10. Toggling a course filter removes the course id from the active ids when it is among
  them and adds it when it is not, and toggling the same id twice gives back the same set
  of active ids.
\<close>

theorem toggleCourseFilter_involution:
  "(c \<in> set (activeCourseIds s) \<longrightarrow>
      set (activeCourseIds (toggleCourseFilter c s)) = set (activeCourseIds s) - {c})
   \<and> (c \<notin> set (activeCourseIds s) \<longrightarrow>
      set (activeCourseIds (toggleCourseFilter c s)) = insert c (set (activeCourseIds s)))
   \<and> set (activeCourseIds (toggleCourseFilter c (toggleCourseFilter c s))) = set (activeCourseIds s)"
  by (auto simp: toggleCourseFilter_def Let_def)

theorem toggleCourseFilter_involution_witness:
  "''math'' \<in> set (activeCourseIds \<lparr> db_events = [], db_courses = [], activeCourseIds = [''math'', ''bio''] \<rparr>)
   \<and> set (activeCourseIds (toggleCourseFilter ''math''
            \<lparr> db_events = [], db_courses = [], activeCourseIds = [''math'', ''bio''] \<rparr>)) = {''bio''}
   \<and> ''art'' \<notin> set (activeCourseIds \<lparr> db_events = [], db_courses = [], activeCourseIds = [''math'', ''bio''] \<rparr>)
   \<and> set (activeCourseIds (toggleCourseFilter ''art''
            \<lparr> db_events = [], db_courses = [], activeCourseIds = [''math'', ''bio''] \<rparr>)) = {''art'', ''math'', ''bio''}
   \<and> set (activeCourseIds (toggleCourseFilter ''math'' (toggleCourseFilter ''math''
            \<lparr> db_events = [], db_courses = [], activeCourseIds = [''math'', ''bio''] \<rparr>))) = {''math'', ''bio''}"
  using toggleCourseFilter_involution [of "''math''" "\<lparr> db_events = [], db_courses = [], activeCourseIds = [''math'', ''bio''] \<rparr>"]
        toggleCourseFilter_involution [of "''art''" "\<lparr> db_events = [], db_courses = [], activeCourseIds = [''math'', ''bio''] \<rparr>"]
  by auto


subsection \<open>The parser's result contract\<close>

lemma upt_shift: "[i..<Suc (i + n)] = i # [Suc i..<Suc (i + n)]"
  by (simp add: upt_conv_Cons del: upt_Suc)

lemma forEach_vevent_events:
  "fst (forEach_vevent env a b c i vs (es, errs)) =
     es @ map (\<lambda>(j, v). projr (transformToCalendarEvent (now_at env j) (uniqueId_at env j) v a b c))
            (filter (\<lambda>(j, v). \<not> isl (transformToCalendarEvent (now_at env j) (uniqueId_at env j) v a b c))
               (zip [i..<i + length vs] vs))"
proof (induction vs arbitrary: i es errs)
  case Nil
  then show ?case by simp
next
  case (Cons v vs)
  show ?case
    by (cases "transformToCalendarEvent (now_at env i) (uniqueId_at env i) v a b c")
       (simp_all add: Cons.IH upt_shift del: upt_Suc)
qed

lemma forEach_vevent_errors:
  "map err_line (snd (forEach_vevent env a b c i vs (es, errs))) =
     map err_line errs @ map (\<lambda>(j, v). Some (j + 1))
            (filter (\<lambda>(j, v). isl (transformToCalendarEvent (now_at env j) (uniqueId_at env j) v a b c))
               (zip [i..<i + length vs] vs))"
proof (induction vs arbitrary: i es errs)
  case Nil
  then show ?case by simp
next
  case (Cons v vs)
  show ?case
    by (cases "transformToCalendarEvent (now_at env i) (uniqueId_at env i) v a b c")
       (simp_all add: Cons.IH upt_shift del: upt_Suc)
qed

lemma zip_upt_nth: "zip [0..<length vs] vs = map (\<lambda>j. (j, vs ! j)) [0..<length vs]"
  by (rule nth_equalityI) simp_all

lemma filter_zip_upt:
  "map f (filter P (zip [0..<length vs] vs)) =
   map (\<lambda>j. f (j, vs ! j)) (filter (\<lambda>j. P (j, vs ! j)) [0..<length vs])"
  by (simp add: zip_upt_nth filter_map comp_def)

text \<open>
  C6. The result of \<open>parseIcsFile\<close>, for every document. When the library cannot parse the
  text, the result has \<open>success = false\<close>, exactly one error, which carries no line, and no
  events. When it can, the events are the conversions of the entries that convert, in
  order, every entry that fails to convert gives one error whose line is the entry's
  position counted from one, and a document without entries gives a warning and no error.
  In all cases \<open>success\<close> holds exactly when at least one event was produced.
\<close>

theorem parseIcsFile_contract:
  fixes ical :: ICAL and env :: ParserEnv and content cid cn cc fn :: string
  defines "r \<equiv> parseIcsFile ical env content cid cn cc fn"
  defines "conv \<equiv> \<lambda>j v. transformToCalendarEvent (now_at env j) (uniqueId_at env j) v cid cn cc"
  shows "(\<forall>msg. ical content = Inl msg \<longrightarrow>
            \<not> res_success r \<and> length (res_errors r) = 1 \<and> err_line (hd (res_errors r)) = None
            \<and> res_events r = None \<and> res_eventsImported r = 0)
       \<and> (\<forall>vs. ical content = Inr vs \<longrightarrow>
            res_events r = Some (map (\<lambda>j. projr (conv j (vs ! j)))
                                  (filter (\<lambda>j. \<not> isl (conv j (vs ! j))) [0..<length vs]))
            \<and> map err_line (res_errors r) =
                map (\<lambda>j. Some (j + 1)) (filter (\<lambda>j. isl (conv j (vs ! j))) [0..<length vs])
            \<and> (vs = [] \<longrightarrow> res_warnings r \<noteq> [] \<and> res_errors r = []))
       \<and> (res_success r \<longleftrightarrow> (\<exists>es. res_events r = Some es \<and> es \<noteq> []))"
proof (cases "ical content")
  case (Inl msg)
  then show ?thesis by (simp add: r_def parseIcsFile_def)
next
  case (Inr vs)
  obtain es errs where fe: "forEach_vevent env cid cn cc 0 vs ([], []) = (es, errs)"
    by (cases "forEach_vevent env cid cn cc 0 vs ([], [])") 
  have es: "es = map (\<lambda>j. projr (conv j (vs ! j))) (filter (\<lambda>j. \<not> isl (conv j (vs ! j))) [0..<length vs])"
    using forEach_vevent_events [of env cid cn cc 0 vs "[]" "[]"] fe
    by (simp add: conv_def filter_zip_upt)
  have errs: "map err_line errs = map (\<lambda>j. Some (j + 1)) (filter (\<lambda>j. isl (conv j (vs ! j))) [0..<length vs])"
    using forEach_vevent_errors [of env cid cn cc 0 vs "[]" "[]"] fe
    by (simp add: conv_def filter_zip_upt)
  have r: "res_events r = Some es" "res_errors r = errs" "res_success r = (es \<noteq> [])"
          "vs = [] \<Longrightarrow> res_warnings r \<noteq> []"
    using Inr fe by (auto simp add: r_def parseIcsFile_def Let_def)
  have "vs = [] \<Longrightarrow> errs = []" using fe by auto
  then show ?thesis using Inr r es errs by auto
qed


theorem parseIcsFile_contract_witness:
  "sample_ical ''doc-five'' = Inr [vevent_hw, vevent_quiz, vevent_broken, vevent_project, vevent_reading]
   \<and> map ev_id (the (res_events (parseIcsFile sample_ical (sample_parser_env ''a'') ''doc-five''
          ''course-a'' ''Math'' ''#4ECDC4'' ''math.ics''))) = [''uid-hw4'', ''event-a-xx'', ''uid-proj'', ''uid-read'']
   \<and> map err_line (res_errors (parseIcsFile sample_ical (sample_parser_env ''a'') ''doc-five''
          ''course-a'' ''Math'' ''#4ECDC4'' ''math.ics'')) = [Some 3]
   \<and> res_success (parseIcsFile sample_ical (sample_parser_env ''a'') ''doc-five''
          ''course-a'' ''Math'' ''#4ECDC4'' ''math.ics'')
   \<and> sample_ical ''doc-empty'' = Inr []
   \<and> res_warnings (parseIcsFile sample_ical (sample_parser_env ''a'') ''doc-empty''
          ''course-a'' ''Math'' ''#4ECDC4'' ''math.ics'') \<noteq> []
   \<and> res_errors (parseIcsFile sample_ical (sample_parser_env ''a'') ''doc-empty''
          ''course-a'' ''Math'' ''#4ECDC4'' ''math.ics'') = []
   \<and> \<not> res_success (parseIcsFile sample_ical (sample_parser_env ''a'') ''doc-empty''
          ''course-a'' ''Math'' ''#4ECDC4'' ''math.ics'')
   \<and> sample_ical ''garbage'' = Inl ''invalid ical body''
   \<and> \<not> res_success (parseIcsFile sample_ical (sample_parser_env ''a'') ''garbage''
          ''course-a'' ''Math'' ''#4ECDC4'' ''math.ics'')
   \<and> length (res_errors (parseIcsFile sample_ical (sample_parser_env ''a'') ''garbage''
          ''course-a'' ''Math'' ''#4ECDC4'' ''math.ics'')) = 1
   \<and> res_events (parseIcsFile sample_ical (sample_parser_env ''a'') ''garbage''
          ''course-a'' ''Math'' ''#4ECDC4'' ''math.ics'') = None"
proof -
  have five: "sample_ical ''doc-five'' = Inr [vevent_hw, vevent_quiz, vevent_broken, vevent_project, vevent_reading]"
    and empty: "sample_ical ''doc-empty'' = Inr []"
    and garbage: "sample_ical ''garbage'' = Inl ''invalid ical body''"
    by (simp_all add: sample_ical_def)
  have conv: "\<And>j v. isl (transformToCalendarEvent (now_at (sample_parser_env ''a'') j)
                  (uniqueId_at (sample_parser_env ''a'') j) v ''course-a'' ''Math'' ''#4ECDC4'')
                \<longleftrightarrow> i_startDate v = None \<or> i_endDate v = None"
    by (simp add: transformToCalendarEvent_def split: option.splits)
  have idx: "[0..<5] = [0, 1, 2, 3, 4]" by (simp add: upt_rec)
  note c = parseIcsFile_contract [of sample_ical _ "sample_parser_env ''a''" "''course-a''" "''Math''"
                "''#4ECDC4''" "''math.ics''"]
  have "map ev_id (the (res_events (parseIcsFile sample_ical (sample_parser_env ''a'') ''doc-five''
          ''course-a'' ''Math'' ''#4ECDC4'' ''math.ics''))) = [''uid-hw4'', ''event-a-xx'', ''uid-proj'', ''uid-read'']"
    using c [of "''doc-five''"] five
    by (simp add: conv idx vevent_hw_def vevent_quiz_def vevent_broken_def vevent_project_def
          vevent_reading_def transformToCalendarEvent_def or_else_def sample_parser_env_def)
  moreover have "map err_line (res_errors (parseIcsFile sample_ical (sample_parser_env ''a'') ''doc-five''
          ''course-a'' ''Math'' ''#4ECDC4'' ''math.ics'')) = [Some 3]"
    using c [of "''doc-five''"] five
    by (simp add: conv idx vevent_hw_def vevent_quiz_def vevent_broken_def vevent_project_def
          vevent_reading_def)
  moreover have "res_success (parseIcsFile sample_ical (sample_parser_env ''a'') ''doc-five''
          ''course-a'' ''Math'' ''#4ECDC4'' ''math.ics'')"
    using c [of "''doc-five''"] five
    by (simp add: conv idx vevent_hw_def)
  moreover have "res_warnings (parseIcsFile sample_ical (sample_parser_env ''a'') ''doc-empty''
          ''course-a'' ''Math'' ''#4ECDC4'' ''math.ics'') \<noteq> []
     \<and> res_errors (parseIcsFile sample_ical (sample_parser_env ''a'') ''doc-empty''
          ''course-a'' ''Math'' ''#4ECDC4'' ''math.ics'') = []
     \<and> \<not> res_success (parseIcsFile sample_ical (sample_parser_env ''a'') ''doc-empty''
          ''course-a'' ''Math'' ''#4ECDC4'' ''math.ics'')"
    using c [of "''doc-empty''"] empty by simp
  moreover have "\<not> res_success (parseIcsFile sample_ical (sample_parser_env ''a'') ''garbage''
          ''course-a'' ''Math'' ''#4ECDC4'' ''math.ics'')
     \<and> length (res_errors (parseIcsFile sample_ical (sample_parser_env ''a'') ''garbage''
          ''course-a'' ''Math'' ''#4ECDC4'' ''math.ics'')) = 1
     \<and> res_events (parseIcsFile sample_ical (sample_parser_env ''a'') ''garbage''
          ''course-a'' ''Math'' ''#4ECDC4'' ''math.ics'') = None"
    using c [of "''garbage''"] garbage by simp
  ultimately show ?thesis using five empty garbage by simp
qed

subsection \<open>Status classification\<close>

text \<open>
  C7, as the code has it. \<open>determineEventStatus\<close> takes the end date and the current time
  only: it returns overdue exactly when the end date is strictly before now and upcoming
  otherwise, and it never returns completed. With now = 2024-03-10T00:00:00Z, the end date
  2024-03-09T23:59:59Z gives overdue and 2024-03-10T00:00:01Z gives upcoming.
\<close>

theorem determineEventStatus_classification:
  "(determineEventStatus endDate now = OVERDUE \<longleftrightarrow> Date_lt endDate now)
   \<and> (determineEventStatus endDate now = UPCOMING \<longleftrightarrow> \<not> Date_lt endDate now)
   \<and> determineEventStatus endDate now \<noteq> COMPLETED
   \<and> (Date_lt (Some e) (Some n) \<longleftrightarrow> e < n)
   \<and> determineEventStatus (Some 1710028799000) (Some 1710028800000) = OVERDUE
   \<and> determineEventStatus (Some 1710028801000) (Some 1710028800000) = UPCOMING"
  by (simp add: determineEventStatus_def Date_lt_def)

theorem determineEventStatus_classification_witness:
  "determineEventStatus (Some 1710028799000) (Some 1710028800000) = OVERDUE
   \<and> Date_lt (Some 1710028799000) (Some 1710028800000)
   \<and> determineEventStatus (Some 1710028800000) (Some 1710028800000) = UPCOMING
   \<and> determineEventStatus None (Some 1710028800000) = UPCOMING"
  using determineEventStatus_classification [of "Some 1710028799000" "Some 1710028800000" 1710028799000 1710028800000]
        determineEventStatus_classification [of "Some 1710028800000" "Some 1710028800000" 1710028800000 1710028800000]
        determineEventStatus_classification [of None "Some 1710028800000"]
  by (simp add: Date_lt_def)

text \<open>
  The specification's classifier returns completed for an event marked completed; the
  code's classifier, which is the one applied to every parsed entry, returns overdue on
  the same dates.
\<close>

theorem classifyStatus_completed_counterexample:
  "classifyStatus_spec (Some 1710028799000) (Some 1710028800000) True = COMPLETED
   \<and> determineEventStatus (Some 1710028799000) (Some 1710028800000) = OVERDUE"
  by (simp add: determineEventStatus_def classifyStatus_spec_def Date_lt_def)

subsection \<open>Type classification\<close>

text \<open>
  C8, as the code has it. Every event the parser produces has the type \<open>detectEventType\<close>
  gives on its title and description: over the lower-cased text of title, a space and
  description, any of exam, test, midterm, final gives exam, else quiz gives quiz, else
  project gives project, else any of assignment, homework, hw gives assignment, else
  other. Every event the scraper produces, and the stored event the sync builds from it,
  has the type the scraper computes from the lower-cased title alone: exam or test gives
  exam, else quiz gives quiz, else project gives project, else assignment (never other).
\<close>

theorem eventType_classification:
  "(transformToCalendarEvent now freshId v cid cn cc = Inr ce \<longrightarrow>
      ev_eventType ce = detectEventType (or_else (i_summary v) []) (or_else (i_description v) []))
   \<and> ((str_includes (toLowerCase (title @ '' '' @ description)) ''exam''
        \<or> str_includes (toLowerCase (title @ '' '' @ description)) ''test''
        \<or> str_includes (toLowerCase (title @ '' '' @ description)) ''midterm''
        \<or> str_includes (toLowerCase (title @ '' '' @ description)) ''final'')
       \<longrightarrow> detectEventType title description = EXAM)
   \<and> (\<not> (str_includes (toLowerCase (title @ '' '' @ description)) ''exam''
        \<or> str_includes (toLowerCase (title @ '' '' @ description)) ''test''
        \<or> str_includes (toLowerCase (title @ '' '' @ description)) ''midterm''
        \<or> str_includes (toLowerCase (title @ '' '' @ description)) ''final'')
       \<longrightarrow> (str_includes (toLowerCase (title @ '' '' @ description)) ''quiz''
              \<longrightarrow> detectEventType title description = QUIZ)
         \<and> (\<not> str_includes (toLowerCase (title @ '' '' @ description)) ''quiz''
              \<longrightarrow> (str_includes (toLowerCase (title @ '' '' @ description)) ''project''
                     \<longrightarrow> detectEventType title description = PROJECT)
                \<and> (\<not> str_includes (toLowerCase (title @ '' '' @ description)) ''project''
                     \<longrightarrow> ((str_includes (toLowerCase (title @ '' '' @ description)) ''assignment''
                            \<or> str_includes (toLowerCase (title @ '' '' @ description)) ''homework''
                            \<or> str_includes (toLowerCase (title @ '' '' @ description)) ''hw'')
                           \<longrightarrow> detectEventType title description = ASSIGNMENT)
                       \<and> (\<not> (str_includes (toLowerCase (title @ '' '' @ description)) ''assignment''
                            \<or> str_includes (toLowerCase (title @ '' '' @ description)) ''homework''
                            \<or> str_includes (toLowerCase (title @ '' '' @ description)) ''hw'')
                           \<longrightarrow> detectEventType title description = OTHER))))
   \<and> (scrapeElement br i cId cName element = Some e \<longrightarrow>
        se_type e = scrapedType (se_title e)
        \<and> ev_eventType (calendarEvent_of env k existingEventId e) = scrapedType (se_title e))
   \<and> scrapedType t =
        (if str_includes (toLowerCase t) ''exam'' \<or> str_includes (toLowerCase t) ''test'' then EXAM
         else if str_includes (toLowerCase t) ''quiz'' then QUIZ
         else if str_includes (toLowerCase t) ''project'' then PROJECT
         else ASSIGNMENT)
   \<and> scrapedType t \<noteq> OTHER"
proof -
  have a: "transformToCalendarEvent now freshId v cid cn cc = Inr ce \<longrightarrow>
      ev_eventType ce = detectEventType (or_else (i_summary v) []) (or_else (i_description v) [])"
    by (auto simp: transformToCalendarEvent_def split: option.splits)
  have b: "scrapeElement br i cId cName element = Some e \<longrightarrow>
        se_type e = scrapedType (se_title e)
        \<and> ev_eventType (calendarEvent_of env k existingEventId e) = scrapedType (se_title e)"
    by (auto simp: scrapeElement_def calendarEvent_of_def Let_def split: option.splits)
  show ?thesis
    using a b by (simp add: detectEventType_def scrapedType_def Let_def)
qed

theorem eventType_classification_witness:
  "transformToCalendarEvent (Some 1710028800000) ''event-a-x'' vevent_hw ''course-a'' ''Math'' ''#4ECDC4''
     = Inr (projr (transformToCalendarEvent (Some 1710028800000) ''event-a-x'' vevent_hw ''course-a'' ''Math'' ''#4ECDC4''))
   \<and> ev_eventType (projr (transformToCalendarEvent (Some 1710028800000) ''event-a-x'' vevent_hw
        ''course-a'' ''Math'' ''#4ECDC4'')) = EXAM
   \<and> str_includes (toLowerCase (''Homework 4 Exam Prep'' @ '' '' @ [])) ''exam''
   \<and> detectEventType ''Homework 4 Exam Prep'' [] = EXAM
   \<and> detectEventType ''Unit 3 Exam Review'' [] = EXAM
   \<and> detectEventType ''Science fair'' ''Project poster'' = PROJECT
   \<and> detectEventType ''Read chapter 5'' [] = OTHER
   \<and> scrapeElement sample_browser 0 ''c1'' ''Math'' element_midterm
       = Some (the (scrapeElement sample_browser 0 ''c1'' ''Math'' element_midterm))
   \<and> se_type (the (scrapeElement sample_browser 0 ''c1'' ''Math'' element_midterm)) = ASSIGNMENT"
proof -
  have e1: "transformToCalendarEvent (Some 1710028800000) ''event-a-x'' vevent_hw ''course-a'' ''Math'' ''#4ECDC4''
     = Inr (projr (transformToCalendarEvent (Some 1710028800000) ''event-a-x'' vevent_hw ''course-a'' ''Math'' ''#4ECDC4''))"
    by (simp add: transformToCalendarEvent_def vevent_hw_def)
  have k: "str_includes (toLowerCase (''Homework 4 Exam Prep'' @ '' '' @ [])) ''exam''"
          "str_includes (toLowerCase (''Unit 3 Exam Review'' @ '' '' @ [])) ''exam''"
    by code_simp+
  have d: "detectEventType ''Science fair'' ''Project poster'' = PROJECT"
          "detectEventType ''Read chapter 5'' [] = OTHER"
          "scrapedType ''Midterm'' = ASSIGNMENT"
    by code_simp+
  have s: "scrapeElement sample_browser 0 ''c1'' ''Math'' element_midterm
       = Some (the (scrapeElement sample_browser 0 ''c1'' ''Math'' element_midterm))"
      "se_title (the (scrapeElement sample_browser 0 ''c1'' ''Math'' element_midterm)) = ''Midterm''"
    by (simp_all add: scrapeElement_def sample_browser_def element_midterm_def truthy_def)
  have "ev_eventType (projr (transformToCalendarEvent (Some 1710028800000) ''event-a-x'' vevent_hw
        ''course-a'' ''Math'' ''#4ECDC4'')) = EXAM"
    using eventType_classification [of "Some 1710028800000" "''event-a-x''" vevent_hw "''course-a''"
            "''Math''" "''#4ECDC4''" _ "''Homework 4 Exam Prep''" "[]"] e1 k(1)
    by (simp add: vevent_hw_def or_else_def)
  moreover have "detectEventType ''Homework 4 Exam Prep'' [] = EXAM"
    using eventType_classification [of _ _ _ _ _ _ _ "''Homework 4 Exam Prep''" "[]"] k(1) by blast
  moreover have "detectEventType ''Unit 3 Exam Review'' [] = EXAM"
    using eventType_classification [of _ _ _ _ _ _ _ "''Unit 3 Exam Review''" "[]"] k(2) by blast
  moreover have "se_type (the (scrapeElement sample_browser 0 ''c1'' ''Math'' element_midterm)) = ASSIGNMENT"
    using eventType_classification [of _ _ _ _ _ _ _ _ _ sample_browser 0 "''c1''" "''Math''" element_midterm]
          s d(3) by simp
  ultimately show ?thesis using e1 k d s by simp
qed

text \<open>
  A scraped element titled Midterm is classified assignment by the scraper, while the
  parser's classification of the same title is exam.
\<close>

theorem scraper_classification_counterexample:
  "map se_title (getCourseCalendar sample_browser (Inr [element_midterm]) ''c1'' ''Math'') = [''Midterm'']
   \<and> map se_type (getCourseCalendar sample_browser (Inr [element_midterm]) ''c1'' ''Math'') = [ASSIGNMENT]
   \<and> detectEventType ''Midterm'' [] = EXAM"
proof -
  have "detectEventType ''Midterm'' [] = EXAM" "scrapedType ''Midterm'' = ASSIGNMENT"
    by code_simp+
  then show ?thesis
    by (simp add: getCourseCalendar_def scrapeElement_def sample_browser_def element_midterm_def truthy_def)
qed

subsection \<open>Tables\<close>

lemma keys_table_put: "key ` set (table_put key x t) = insert (key x) (key ` set t)"
  by (induction t) auto

lemma set_table_put_subset: "set (table_put key x t) \<subseteq> insert x (set t)"
  by (induction t) auto

lemma table_put_keeps: "y \<in> set t \<Longrightarrow> key y \<noteq> key x \<Longrightarrow> y \<in> set (table_put key x t)"
  by (induction t) auto

lemma table_wf_put: "table_wf key t \<Longrightarrow> table_wf key (table_put key x t)"
proof (induction t)
  case Nil
  then show ?case by (simp add: table_wf_def)
next
  case (Cons y t)
  have sub: "key ` set (table_put key x t) = insert (key x) (key ` set t)"
    by (rule keys_table_put)
  from Cons show ?case
    using sub by (auto simp: table_wf_def)
qed

lemma set_table_put_wf:
  "table_wf key t \<Longrightarrow> set (table_put key x t) = insert x {y \<in> set t. key y \<noteq> key x}"
  by (induction t) (auto simp: table_wf_def)

lemma keys_bulkPut: "key ` set (table_bulkPut key xs t) = key ` set t \<union> key ` set xs"
  unfolding table_bulkPut_def
  by (induction xs arbitrary: t) (auto simp: keys_table_put)

lemma wf_bulkPut: "table_wf key t \<Longrightarrow> table_wf key (table_bulkPut key xs t)"
  unfolding table_bulkPut_def
  by (induction xs arbitrary: t) (auto simp: table_wf_put)

lemma bulkPut_keeps:
  "y \<in> set t \<Longrightarrow> key y \<notin> key ` set xs \<Longrightarrow> y \<in> set (table_bulkPut key xs t)"
  unfolding table_bulkPut_def
  by (induction xs arbitrary: t) (auto simp: table_put_keeps)

lemma set_bulkPut_wf:
  "table_wf key t \<Longrightarrow> y \<in> set (table_bulkPut key xs t) \<Longrightarrow>
   y \<in> set xs \<or> (y \<in> set t \<and> key y \<notin> key ` set xs)"
  unfolding table_bulkPut_def
proof (induction xs arbitrary: t)
  case Nil
  then show ?case by simp
next
  case (Cons x xs)
  from Cons.prems have "y \<in> set (foldl (\<lambda>t x. table_put key x t) (table_put key x t) xs)"
    by simp
  with Cons.IH [of "table_put key x t"] Cons.prems(1)
  have "y \<in> set xs \<or> (y \<in> set (table_put key x t) \<and> key y \<notin> key ` set xs)"
    by (simp add: table_wf_put)
  then show ?case
    using Cons.prems(1) by (auto simp: set_table_put_wf)
qed

subsection \<open>File import keeps every stored event\<close>

lemma addAllCourses_events: "addAllCourses cs s = (r, s') \<Longrightarrow> db_events s' = db_events s"
  by (induction cs arbitrary: s) (auto simp: addCourse_def split: sum.splits)

lemma processFiles_events:
  "db_events (out_state (processFiles ical fs s)) = db_events s
   \<or> db_events (out_state (processFiles ical fs s))
        = table_bulkPut ev_id (fst (snd (draftsOf ical fs))) (db_events s)"
proof -
  obtain cs es rs where d: "draftsOf ical fs = (cs, es, rs)"
    by (cases "draftsOf ical fs") auto
  obtain r s' where a: "addAllCourses cs s = (r, s')"
    by (cases "addAllCourses cs s") auto
  show ?thesis
    using d a addAllCourses_events [OF a]
    by (cases r) (auto simp: processFiles_def addEvents_def)
qed

text \<open>
  C5. A file import never deletes a stored event: for every prior state and every batch of
  selected files, each event id stored before \<open>processFiles\<close> is still stored after it.
\<close>

theorem file_import_never_deletes:
  "\<forall>i \<in> set (map ev_id (db_events s)).
      i \<in> set (map ev_id (db_events (out_state (processFiles ical selectedFiles s))))"
  using processFiles_events [of ical selectedFiles s]
  by (auto simp: keys_bulkPut)

theorem file_import_never_deletes_witness:
  "map ev_id (db_events imported_two) = [''event-a-xx'', ''uid-hw4'']
   \<and> map ev_id (fst (snd (draftsOf sample_ical [(sample_import_env ''b'', file_one)]))) = [''uid-hw4'']
   \<and> ''event-a-xx'' \<in> set (map ev_id (db_events (out_state
         (processFiles sample_ical [(sample_import_env ''b'', file_one)] imported_two))))
   \<and> ''uid-hw4'' \<in> set (map ev_id (db_events (out_state
         (processFiles sample_ical [(sample_import_env ''b'', file_one)] imported_two))))"
proof -
  have a: "map ev_id (db_events imported_two) = [''event-a-xx'', ''uid-hw4'']"
    by code_simp
  have b: "map ev_id (fst (snd (draftsOf sample_ical [(sample_import_env ''b'', file_one)]))) = [''uid-hw4'']"
    by code_simp
  show ?thesis
    using file_import_never_deletes [of imported_two sample_ical "[(sample_import_env ''b'', file_one)]"] a b
    by simp
qed

subsection \<open>Scrape reconciliation: which stored events survive\<close>

lemma table_wf_distinct: "table_wf key t \<Longrightarrow> distinct (map key t)"
  by (simp add: table_wf_def strict_sorted_iff)

lemma map_of_foldl_update:
  "map_of (foldl (\<lambda>m (k, v). AList.update k v m) m ps) = map_of m ++ map_of (rev ps)"
proof (induction ps arbitrary: m)
  case Nil
  then show ?case by simp
next
  case (Cons p ps)
  obtain k v where p: "p = (k, v)" by (cases p)
  have "map_of (foldl (\<lambda>m (k, v). AList.update k v m) m (p # ps)) x
          = (map_of m ++ map_of (rev (p # ps))) x" for x
    by (simp add: p Cons.IH update_conv' map_add_def split: option.splits)
  then show ?case by (rule ext)
qed

lemma distinct_foldl_update:
  "distinct (map fst m) \<Longrightarrow> distinct (map fst (foldl (\<lambda>m (k, v). AList.update k v m) m ps))"
  by (induction ps arbitrary: m) (auto simp: distinct_update)

lemma map_of_Map_new: "map_of (Map_new ps) = map_of (rev ps)"
  by (simp add: Map_new_def map_of_foldl_update)

lemma values_Map_new: "v \<in> set (map snd (Map_new ps)) \<longleftrightarrow> (\<exists>k. map_of (rev ps) k = Some v)"
proof -
  have d: "distinct (map fst (Map_new ps))"
    unfolding Map_new_def by (rule distinct_foldl_update) simp
  have "v \<in> set (map snd (Map_new ps)) \<longleftrightarrow> (\<exists>k. (k, v) \<in> set (Map_new ps))"
    by force
  also have "\<dots> \<longleftrightarrow> (\<exists>k. map_of (Map_new ps) k = Some v)"
    using d by (simp add: map_of_eq_Some_iff)
  finally show ?thesis by (simp add: map_of_Map_new)
qed

lemma values_existingEventMap:
  assumes "table_wf ev_id t" and "e \<in> set t"
  shows "ev_id e \<in> set (map snd (existingEventMap t))
         \<longleftrightarrow> map_of (existingEventMap t) (key_of_stored e) = Some (ev_id e)"
proof -
  let ?ps = "map (\<lambda>e. (key_of_stored e, ev_id e)) t"
  have inj: "inj_on ev_id (set t)"
    using table_wf_distinct [OF assms(1)] by (simp add: distinct_map)
  have one: "k = key_of_stored e" if "map_of (rev ?ps) k = Some (ev_id e)" for k
  proof -
    from that have "(k, ev_id e) \<in> set (rev ?ps)" by (rule map_of_SomeD)
    then obtain e' where "e' \<in> set t" "k = key_of_stored e'" "ev_id e' = ev_id e" by auto
    with inj assms(2) show ?thesis by (auto dest: inj_onD)
  qed
  have "ev_id e \<in> set (map snd (existingEventMap t)) \<longleftrightarrow> (\<exists>k. map_of (rev ?ps) k = Some (ev_id e))"
    unfolding existingEventMap_def by (rule values_Map_new)
  also have "\<dots> \<longleftrightarrow> map_of (rev ?ps) (key_of_stored e) = Some (ev_id e)"
    using one by blast
  finally show ?thesis
    by (simp only: existingEventMap_def map_of_Map_new)
qed

lemma matched_id_Cons:
  "matched_id M (d # es) j \<longleftrightarrow>
     (j \<noteq> [] \<and> map_of M (key_of_scraped d) = Some j) \<or> matched_id M es j"
  by (auto simp: matched_id_def)

lemma calendarEvent_of_status: "ev_status (calendarEvent_of env i x event) \<noteq> COMPLETED"
  by (simp add: calendarEvent_of_def)

lemma set_table_update_const:
  "y \<in> set (table_update key i (\<lambda>_. c) t) \<Longrightarrow> y = c \<or> (y \<in> set t \<and> key y \<noteq> i)"
  by (auto simp: table_update_def split: if_splits)

lemma processEvents_matched_step:
  assumes "map_of M (key_of_scraped d) = Some m" and "m \<noteq> []"
  shows "processEvents env M i (d # es) (t, seen) =
           processEvents env M (Suc i) es
             (table_update ev_id m (\<lambda>_. calendarEvent_of env i (Some m) d) t, insert m seen)"
    and "ev_id (calendarEvent_of env i (Some m) d) = m"
  using assms by (simp_all add: Let_def truthy_def calendarEvent_of_def or_else_def)

lemma processEvents_add_step:
  assumes "\<not> truthy (map_of M (key_of_scraped d))"
    and "processEvents env M i (d # es) (t, seen) = (None, t', seen')"
  shows "ev_id (calendarEvent_of env i (map_of M (key_of_scraped d)) d) \<notin> set (map ev_id t)
       \<and> processEvents env M (Suc i) es
           (table_put ev_id (calendarEvent_of env i (map_of M (key_of_scraped d)) d) t,
            insert (ev_id (calendarEvent_of env i (map_of M (key_of_scraped d)) d)) seen) = (None, t', seen')"
  using assms
  by (auto simp: Let_def table_add_def table_has_def split: sum.splits if_splits)

lemma processEvents_inv:
  assumes "processEvents env M i es (t, seen) = (None, t', seen')"
  shows "set (map ev_id t) \<subseteq> set (map ev_id t')
       \<and> (\<forall>j \<in> set (map ev_id t). j \<in> seen' \<longleftrightarrow> j \<in> seen \<or> matched_id M es j)
       \<and> (\<forall>e' \<in> set t'. (e' \<in> set t \<and> \<not> matched_id M es (ev_id e')) \<or> ev_status e' \<noteq> COMPLETED)"
  using assms
proof (induction es arbitrary: i t seen)
  case Nil
  then show ?case by (simp add: matched_id_def)
next
  case (Cons d es)
  let ?x = "map_of M (key_of_scraped d)"
  show ?case
  proof (cases "truthy ?x")
    case True
    then obtain m where m: "?x = Some m" "m \<noteq> []"
      by (auto simp: truthy_def split: option.splits)
    define c where "c = calendarEvent_of env i (Some m) d"
    define t1 where "t1 = table_update ev_id m (\<lambda>_. c) t"
    have idc: "ev_id c = m" and stc: "ev_status c \<noteq> COMPLETED"
      using processEvents_matched_step(2) [OF m] calendarEvent_of_status by (simp_all add: c_def)
    have ids: "set (map ev_id t1) = set (map ev_id t)"
      using idc by (simp add: t1_def table_update_def) (metis (mono_tags, lifting) image_cong)
    have run: "processEvents env M (Suc i) es (t1, insert m seen) = (None, t', seen')"
      using Cons.prems processEvents_matched_step(1) [OF m] by (simp add: t1_def c_def)
    have mt: "\<And>j. matched_id M (d # es) j \<longleftrightarrow> j = m \<or> matched_id M es j"
      using m by (auto simp: matched_id_Cons)
    have t1_elems: "\<And>y. y \<in> set t1 \<Longrightarrow> y = c \<or> (y \<in> set t \<and> ev_id y \<noteq> m)"
      unfolding t1_def by (rule set_table_update_const)
    note IH = Cons.IH [OF run]
    have a: "set (map ev_id t) \<subseteq> set (map ev_id t')" using IH ids by blast
    have b: "\<forall>j \<in> set (map ev_id t). j \<in> seen' \<longleftrightarrow> j \<in> seen \<or> matched_id M (d # es) j"
      using IH ids mt by blast
    have c: "\<forall>e' \<in> set t'. (e' \<in> set t \<and> \<not> matched_id M (d # es) (ev_id e')) \<or> ev_status e' \<noteq> COMPLETED"
      using IH t1_elems stc mt by blast
    show ?thesis using a b c by blast
  next
    case False
    define c where "c = calendarEvent_of env i ?x d"
    define t1 where "t1 = table_put ev_id c t"
    have stc: "ev_status c \<noteq> COMPLETED"
      using calendarEvent_of_status by (simp add: c_def)
    have fresh: "ev_id c \<notin> set (map ev_id t)"
      and run: "processEvents env M (Suc i) es (t1, insert (ev_id c) seen) = (None, t', seen')"
      using processEvents_add_step [OF False Cons.prems] by (simp_all add: c_def t1_def)
    have ids: "set (map ev_id t1) = insert (ev_id c) (set (map ev_id t))"
      by (simp add: t1_def keys_table_put)
    have mt: "\<And>j. matched_id M (d # es) j \<longleftrightarrow> matched_id M es j"
      using False by (auto simp: matched_id_Cons truthy_def)
    have t1_elems: "\<And>y. y \<in> set t1 \<Longrightarrow> y = c \<or> y \<in> set t"
      using set_table_put_subset [of ev_id c t] by (auto simp: t1_def)
    note IH = Cons.IH [OF run]
    have a: "set (map ev_id t) \<subseteq> set (map ev_id t')" using IH ids by blast
    have b: "\<forall>j \<in> set (map ev_id t). j \<in> seen' \<longleftrightarrow> j \<in> seen \<or> matched_id M (d # es) j"
    proof
      fix j assume j: "j \<in> set (map ev_id t)"
      with fresh have ne: "j \<noteq> ev_id c" by blast
      from j ids have "j \<in> set (map ev_id t1)" by blast
      with IH have "j \<in> seen' \<longleftrightarrow> j \<in> insert (ev_id c) seen \<or> matched_id M es j" by blast
      with ne show "j \<in> seen' \<longleftrightarrow> j \<in> seen \<or> matched_id M (d # es) j"
        by (simp add: mt)
    qed
    have c: "\<forall>e' \<in> set t'. (e' \<in> set t \<and> \<not> matched_id M (d # es) (ev_id e')) \<or> ev_status e' \<noteq> COMPLETED"
      using IH t1_elems stc mt by blast
    show ?thesis using a b c by blast
  qed
qed

lemma deleteStale_filter:
  "deleteStale M seen et = filter (\<lambda>x. \<not> (ev_id x \<in> set (map snd M) \<and> ev_id x \<notin> seen)) et"
proof (cases "filter (\<lambda>i. i \<notin> seen) (map snd M) = []")
  case True
  then have "\<forall>i \<in> set (map snd M). i \<in> seen" by (simp only: filter_empty_conv) blast
  then have "filter (\<lambda>x. \<not> (ev_id x \<in> set (map snd M) \<and> ev_id x \<notin> seen)) et = et"
    by (intro filter_True) blast
  with True show ?thesis by (simp add: deleteStale_def)
next
  case False
  then show ?thesis by (simp add: deleteStale_def table_bulkDelete_def)
qed

lemma processScrapedData_events:
  assumes "processScrapedData env courses events s = (None, s')"
  shows "\<exists>et seen.
    processEvents env (existingEventMap (db_events s)) 0 events (db_events s, {}) = (None, et, seen)
    \<and> db_events s' = deleteStale (existingEventMap (db_events s)) seen et"
proof -
  obtain rc ct where pc: "processCourses env (map co_id (db_courses s)) 0 courses (db_courses s) = (rc, ct)"
    by (cases "processCourses env (map co_id (db_courses s)) 0 courses (db_courses s)") auto
  obtain re et seen where pe:
    "processEvents env (existingEventMap (db_events s)) 0 events (db_events s, {}) = (re, et, seen)"
    by (cases "processEvents env (existingEventMap (db_events s)) 0 events (db_events s, {})") auto
  from assms pc have rc: "rc = None"
    by (cases rc) (simp_all add: processScrapedData_def Let_def)
  from assms pc pe rc have re: "re = None"
    by (cases re) (simp_all add: processScrapedData_def Let_def)
  have "db_events s' = deleteStale (existingEventMap (db_events s)) seen et"
    using assms pc pe rc re by (auto simp add: processScrapedData_def Let_def)
  with pe re show ?thesis by blast
qed

text \<open>
  C3, as the code has it. Stale removal is not scoped per course. After a sync that
  completes on a well-formed events table, a previously stored event, of whatever course,
  is still stored exactly when its id is not the value the sync's key-to-id map holds for
  its key, or a scraped event of the batch was matched to its id; every other previously
  stored event is deleted.
\<close>

theorem stale_removal_is_global:
  assumes "table_wf ev_id (db_events s)"
    and "processScrapedData env courses events s = (None, s')"
  shows "\<forall>e \<in> set (db_events s).
           ev_id e \<in> set (map ev_id (db_events s')) \<longleftrightarrow>
             map_of (existingEventMap (db_events s)) (key_of_stored e) \<noteq> Some (ev_id e)
             \<or> matched_id (existingEventMap (db_events s)) events (ev_id e)"
proof
  fix e assume e: "e \<in> set (db_events s)"
  define M where "M = existingEventMap (db_events s)"
  from processScrapedData_events [OF assms(2)] obtain et seen where
    pe: "processEvents env M 0 events (db_events s, {}) = (None, et, seen)" and
    ev: "db_events s' = filter (\<lambda>x. \<not> (ev_id x \<in> set (map snd M) \<and> ev_id x \<notin> seen)) et"
    unfolding M_def deleteStale_filter by blast
  note inv = processEvents_inv [OF pe]
  from e have e_id: "ev_id e \<in> set (map ev_id (db_events s))" by simp
  with inv have in_et: "ev_id e \<in> set (map ev_id et)" by blast
  from inv e_id have seen: "ev_id e \<in> seen \<longleftrightarrow> matched_id M events (ev_id e)"
    by blast
  have "ev_id e \<in> set (map ev_id (db_events s')) \<longleftrightarrow>
          \<not> (ev_id e \<in> set (map snd M) \<and> ev_id e \<notin> seen)"
  proof
    assume "ev_id e \<in> set (map ev_id (db_events s'))"
    then obtain x where "x \<in> set (db_events s')" "ev_id x = ev_id e" by auto
    then show "\<not> (ev_id e \<in> set (map snd M) \<and> ev_id e \<notin> seen)"
      unfolding ev by auto
  next
    assume k: "\<not> (ev_id e \<in> set (map snd M) \<and> ev_id e \<notin> seen)"
    from in_et obtain x where x: "x \<in> set et" "ev_id x = ev_id e" by auto
    with k have "x \<in> set (filter (\<lambda>x. \<not> (ev_id x \<in> set (map snd M) \<and> ev_id x \<notin> seen)) et)"
      by simp
    then have "x \<in> set (db_events s')" by (simp only: ev)
    then have "ev_id x \<in> set (map ev_id (db_events s'))" by simp
    with x(2) show "ev_id e \<in> set (map ev_id (db_events s'))" by simp
  qed
  then show "ev_id e \<in> set (map ev_id (db_events s')) \<longleftrightarrow>
             map_of (existingEventMap (db_events s)) (key_of_stored e) \<noteq> Some (ev_id e)
             \<or> matched_id (existingEventMap (db_events s)) events (ev_id e)"
    using values_existingEventMap [OF assms(1) e] seen unfolding M_def by blast
qed

theorem stale_removal_is_global_witness:
  "table_wf ev_id (db_events imported_once)
   \<and> processScrapedData (sample_sync_env ''b'') [scraped_course ''101'' ''Math'' 1] [homework_12] imported_once
       = (None, snd (processScrapedData (sample_sync_env ''b'') [scraped_course ''101'' ''Math'' 1]
                       [homework_12] imported_once))
   \<and> map ev_id (db_events imported_once) = [''uid-hw4'']
   \<and> map ev_courseId (db_events imported_once) = [''course-a'']
   \<and> ''uid-hw4'' \<notin> set (map ev_id (db_events (snd (processScrapedData (sample_sync_env ''b'')
          [scraped_course ''101'' ''Math'' 1] [homework_12] imported_once))))
   \<and> table_wf ev_id (db_events synced_two)
   \<and> map ev_id (db_events synced_two) = [''event-a-x'', ''event-a-xx'']
   \<and> processScrapedData (sample_sync_env ''b'') [scraped_course ''101'' ''Math'' 2]
        [homework_12, homework_19] synced_two
       = (None, snd (processScrapedData (sample_sync_env ''b'') [scraped_course ''101'' ''Math'' 2]
                       [homework_12, homework_19] synced_two))
   \<and> ''event-a-x'' \<in> set (map ev_id (db_events (snd (processScrapedData (sample_sync_env ''b'')
          [scraped_course ''101'' ''Math'' 2] [homework_12, homework_19] synced_two))))
   \<and> ''event-a-xx'' \<notin> set (map ev_id (db_events (snd (processScrapedData (sample_sync_env ''b'')
          [scraped_course ''101'' ''Math'' 2] [homework_12, homework_19] synced_two))))"
proof -
  let ?r1 = "processScrapedData (sample_sync_env ''b'') [scraped_course ''101'' ''Math'' 1] [homework_12] imported_once"
  let ?r2 = "processScrapedData (sample_sync_env ''b'') [scraped_course ''101'' ''Math'' 2]
               [homework_12, homework_19] synced_two"
  have wf1: "table_wf ev_id (db_events imported_once)" by code_simp
  have wf2: "table_wf ev_id (db_events synced_two)" by code_simp
  have f1: "fst ?r1 = None" by code_simp
  have f2: "fst ?r2 = None" by code_simp
  have run1: "?r1 = (None, snd ?r1)" using f1 by (metis prod.collapse)
  have run2: "?r2 = (None, snd ?r2)" using f2 by (metis prod.collapse)
  have id1: "map ev_id (db_events imported_once) = [''uid-hw4'']"
            "map ev_courseId (db_events imported_once) = [''course-a'']" by code_simp+
  have id2: "map ev_id (db_events synced_two) = [''event-a-x'', ''event-a-xx'']" by code_simp
  have k1: "\<forall>e \<in> set (db_events imported_once).
              \<not> (map_of (existingEventMap (db_events imported_once)) (key_of_stored e) \<noteq> Some (ev_id e)
                 \<or> matched_id (existingEventMap (db_events imported_once)) [homework_12] (ev_id e))"
    by code_simp
  have k2: "\<forall>e \<in> set (db_events synced_two).
              (map_of (existingEventMap (db_events synced_two)) (key_of_stored e) \<noteq> Some (ev_id e)
                 \<or> matched_id (existingEventMap (db_events synced_two)) [homework_12, homework_19] (ev_id e))
              \<longleftrightarrow> ev_id e = ''event-a-x''"
    by code_simp
  have in1: "\<exists>e \<in> set (db_events imported_once). ev_id e = ''uid-hw4''" by code_simp
  have in2: "\<exists>e \<in> set (db_events synced_two). ev_id e = ''event-a-x''"
            "\<exists>e \<in> set (db_events synced_two). ev_id e = ''event-a-xx''" by code_simp+
  have a: "''uid-hw4'' \<notin> set (map ev_id (db_events (snd ?r1)))"
  proof -
    from in1 obtain e where e: "e \<in> set (db_events imported_once)" and i: "ev_id e = ''uid-hw4''" ..
    note T = stale_removal_is_global [OF wf1 run1, rule_format, OF e]
    note K = k1 [rule_format, OF e]
    have "ev_id e \<notin> set (map ev_id (db_events (snd ?r1)))"
    proof
      assume "ev_id e \<in> set (map ev_id (db_events (snd ?r1)))"
      then have "map_of (existingEventMap (db_events imported_once)) (key_of_stored e) \<noteq> Some (ev_id e)
                 \<or> matched_id (existingEventMap (db_events imported_once)) [homework_12] (ev_id e)"
        by (rule iffD1 [OF T])
      with K show False by (rule notE)
    qed
    then show ?thesis unfolding i .
  qed
  have b: "''event-a-x'' \<in> set (map ev_id (db_events (snd ?r2)))"
  proof -
    from in2(1) obtain e where e: "e \<in> set (db_events synced_two)" and i: "ev_id e = ''event-a-x''" ..
    note T = stale_removal_is_global [OF wf2 run2, rule_format, OF e]
    note K = k2 [rule_format, OF e]
    from i have "map_of (existingEventMap (db_events synced_two)) (key_of_stored e) \<noteq> Some (ev_id e)
                 \<or> matched_id (existingEventMap (db_events synced_two)) [homework_12, homework_19] (ev_id e)"
      by (rule iffD2 [OF K])
    then have "ev_id e \<in> set (map ev_id (db_events (snd ?r2)))"
      by (rule iffD2 [OF T])
    then show ?thesis unfolding i .
  qed
  have c: "''event-a-xx'' \<notin> set (map ev_id (db_events (snd ?r2)))"
  proof -
    from in2(2) obtain e where e: "e \<in> set (db_events synced_two)" and i: "ev_id e = ''event-a-xx''" ..
    note T = stale_removal_is_global [OF wf2 run2, rule_format, OF e]
    note K = k2 [rule_format, OF e]
    have ne: "ev_id e \<noteq> ''event-a-x''" by (simp add: i)
    have "ev_id e \<notin> set (map ev_id (db_events (snd ?r2)))"
    proof
      assume "ev_id e \<in> set (map ev_id (db_events (snd ?r2)))"
      then have "map_of (existingEventMap (db_events synced_two)) (key_of_stored e) \<noteq> Some (ev_id e)
                 \<or> matched_id (existingEventMap (db_events synced_two)) [homework_12, homework_19] (ev_id e)"
        by (rule iffD1 [OF T])
      then have "ev_id e = ''event-a-x''" by (rule iffD1 [OF K])
      with ne show False by (rule notE)
    qed
    then show ?thesis unfolding i .
  qed
  from wf1 run1 id1 a wf2 id2 run2 b c show ?thesis
    by - (intro conjI; assumption)
qed

text \<open>
  A file-imported event of course \<open>course-a\<close> is deleted by a sync whose batch is about
  course 101 only; and when the page of course 101 fails to load, so that the scraper
  returns no events for it, the sync deletes the stored event of course 101.
\<close>

theorem stale_removal_other_course_counterexample:
  "map ev_id (db_events imported_once) = [''uid-hw4'']
   \<and> map ev_courseId (db_events imported_once) = [''course-a'']
   \<and> fst (processScrapedData (sample_sync_env ''b'') [scraped_course ''101'' ''Math'' 1]
            [homework_12] imported_once) = None
   \<and> map ev_id (db_events (snd (processScrapedData (sample_sync_env ''b'')
            [scraped_course ''101'' ''Math'' 1] [homework_12] imported_once))) = [''event-b-x'']
   \<and> scrapeCourses sample_browser [(''101'', ''Math'', Inl ''Navigation timeout of 60000 ms exceeded'')]
         = ([scraped_course ''101'' ''Math'' 0], [])
   \<and> map ev_courseId (db_events synced_once) = [''101'']
   \<and> fst (processScrapedData (sample_sync_env ''b'') [scraped_course ''101'' ''Math'' 0] [] synced_once) = None
   \<and> db_events (snd (processScrapedData (sample_sync_env ''b'')
            [scraped_course ''101'' ''Math'' 0] [] synced_once)) = []"
  by code_simp

subsection \<open>Scrape reconciliation run twice\<close>

text \<open>
  C2, the code on a batch synced twice. A stored event has no \<open>dueDate\<close>, so its key ends
  in \<open>undefined\<close> and differs from the key of the scraped event it was built from. The
  second sync of the same batch therefore matches nothing: with one scraped event the
  stored event is deleted and stored anew under a fresh id, and with two scraped events
  of the same title the count grows from two to three.
\<close>

theorem scrape_sync_id_churn:
  "key_of_scraped homework_12 = ''101-Homework-2024-03-12T09:00:00.000Z''
   \<and> map key_of_stored (db_events synced_once) = [''101-Homework-undefined'']
   \<and> map ev_id (db_events synced_once) = [''event-a-x'']
   \<and> fst (processScrapedData (sample_sync_env ''b'') [scraped_course ''101'' ''Math'' 1]
            [homework_12] synced_once) = None
   \<and> map ev_id (db_events (snd (processScrapedData (sample_sync_env ''b'')
            [scraped_course ''101'' ''Math'' 1] [homework_12] synced_once))) = [''event-b-x'']
   \<and> map ev_id (db_events (snd (processScrapedData (sample_sync_env ''a'')
            [scraped_course ''101'' ''Math'' 2] [homework_12, homework_19] empty_state)))
         = [''event-a-x'', ''event-a-xx'']
   \<and> map ev_id (db_events (snd (processScrapedData (sample_sync_env ''b'')
            [scraped_course ''101'' ''Math'' 2] [homework_12, homework_19]
            (snd (processScrapedData (sample_sync_env ''a'')
               [scraped_course ''101'' ''Math'' 2] [homework_12, homework_19] empty_state)))))
         = [''event-a-x'', ''event-b-x'', ''event-b-xx'']"
  by code_simp

subsection \<open>The stored event count of a course\<close>

text \<open>
  C9, the code on a file imported twice. The second import creates a second course and its
  \<open>bulkPut\<close> moves the event, stored under its UID, to that course; the first course keeps
  \<open>eventCount = 1\<close> while no stored event has its id.
\<close>

theorem eventCount_stale_after_reimport:
  "out_error (processFiles sample_ical [(sample_import_env ''b'', file_one)] imported_once) = None
   \<and> map (\<lambda>c. (co_id c, co_eventCount c,
                length (filter (\<lambda>e. ev_courseId e = co_id c)
                  (db_events (out_state (processFiles sample_ical [(sample_import_env ''b'', file_one)] imported_once))))))
        (db_courses (out_state (processFiles sample_ical [(sample_import_env ''b'', file_one)] imported_once)))
      = [(''course-a'', 1, 0), (''course-b'', 1, 1)]"
  by code_simp

subsection \<open>The status a reconciliation writes\<close>

lemma transform_status:
  "transformToCalendarEvent now f v a b c = Inr ce \<Longrightarrow> ev_status ce \<noteq> COMPLETED"
  by (auto simp: transformToCalendarEvent_def determineEventStatus_def split: option.splits if_splits)

lemma forEach_vevent_all:
  assumes "\<forall>e \<in> set es. P e"
    and "\<And>now f v ce. transformToCalendarEvent now f v a b c = Inr ce \<Longrightarrow> P ce"
  shows "\<forall>e \<in> set (fst (forEach_vevent env a b c i vs (es, errs))). P e"
  using assms(1)
proof (induction vs arbitrary: i es errs)
  case Nil
  then show ?case by simp
next
  case (Cons v vs)
  show ?case
  proof (cases "transformToCalendarEvent (now_at env i) (uniqueId_at env i) v a b c")
    case (Inl msg)
    then show ?thesis using Cons by simp
  next
    case (Inr ce)
    then have "\<forall>e \<in> set (es @ [ce]). P e" using Cons.prems assms(2) by auto
    from Cons.IH [OF this] Inr show ?thesis by simp
  qed
qed

lemma parseIcsFile_events_Inr:
  "ical content = Inr vs \<Longrightarrow>
   res_events (parseIcsFile ical env content a b c fn) = Some (fst (forEach_vevent env a b c 0 vs ([], [])))
   \<and> res_success (parseIcsFile ical env content a b c fn) = (fst (forEach_vevent env a b c 0 vs ([], [])) \<noteq> [])"
  by (cases "vs = []") (auto simp: parseIcsFile_def Let_def split: prod.splits)

lemma parseIcsFile_events_all:
  assumes "res_events (parseIcsFile ical env content a b c fn) = Some es"
    and "\<And>now f v ce. transformToCalendarEvent now f v a b c = Inr ce \<Longrightarrow> P ce"
  shows "\<forall>e \<in> set es. P e"
proof (cases "ical content")
  case (Inl msg)
  with assms(1) show ?thesis by (simp add: parseIcsFile_def)
next
  case (Inr vs)
  have "\<forall>e \<in> set (fst (forEach_vevent env a b c 0 vs ([], []))). P e"
    by (rule forEach_vevent_all) (simp_all add: assms(2))
  moreover have "es = fst (forEach_vevent env a b c 0 vs ([], []))"
    using assms(1) parseIcsFile_events_Inr [of ical content vs env a b c fn] Inr by simp
  ultimately show ?thesis by simp
qed

lemma parseSelectedFile_all:
  assumes "parseSelectedFile ical env file = ParseOk n a b c es"
    and "\<And>now f v a b c ce. transformToCalendarEvent now f v a b c = Inr ce \<Longrightarrow> P ce"
  shows "\<forall>e \<in> set es. P e"
proof (cases "f_readIcsFile file")
  case (Inl msg)
  with assms(1) show ?thesis by (simp add: parseSelectedFile_def)
next
  case (Inr content)
  let ?r = "parseIcsFile ical (imp_parser env) content (imp_generateId env) (f_courseName file)
              (imp_generateRandomColor env) (f_name file)"
  from assms(1) Inr have "res_events ?r = Some es"
    by (auto simp: parseSelectedFile_def Let_def split: option.splits if_splits)
  then show ?thesis by (rule parseIcsFile_events_all) (rule assms(2))
qed

lemma collectResults_all:
  assumes "\<And>env n a b c es. (env, ParseOk n a b c es) \<in> set rs \<Longrightarrow> \<forall>e \<in> set es. P e"
  shows "\<forall>e \<in> set (fst (snd (collectResults rs))). P e"
  using assms
proof (induction rs rule: collectResults.induct)
  case 1
  then show ?case by simp
next
  case (2 env fileName courseId courseName courseColor events rest)
  have here: "\<forall>e \<in> set events. P e"
    by (rule "2.prems" [of env fileName courseId courseName courseColor]) simp
  have "\<forall>e \<in> set (fst (snd (collectResults rest))). P e"
  proof (rule "2.IH")
    fix env' n a b c es assume "(env', ParseOk n a b c es) \<in> set rest"
    then show "\<forall>e \<in> set es. P e" by (intro "2.prems" [of env' n a b c es]) simp
  qed
  with here show ?case by (auto split: prod.splits)
next
  case (3 env fileName error rest)
  have "\<forall>e \<in> set (fst (snd (collectResults rest))). P e"
  proof (rule "3.IH")
    fix env' n a b c es assume "(env', ParseOk n a b c es) \<in> set rest"
    then show "\<forall>e \<in> set es. P e" by (intro "3.prems" [of env' n a b c es]) simp
  qed
  then show ?case by (auto split: prod.splits)
qed

lemma draftsOf_all:
  assumes "\<And>now f v a b c ce. transformToCalendarEvent now f v a b c = Inr ce \<Longrightarrow> P ce"
  shows "\<forall>e \<in> set (fst (snd (draftsOf ical fs))). P e"
  unfolding draftsOf_def
proof (rule collectResults_all)
  fix env n a b c es
  assume "(env, ParseOk n a b c es) \<in> set (map (\<lambda>(env, file). (env, parseSelectedFile ical env file)) fs)"
  then obtain sel where "parseSelectedFile ical env sel = ParseOk n a b c es" by auto
  then show "\<forall>e \<in> set es. P e" by (rule parseSelectedFile_all) (rule assms)
qed

lemma collectResults_no_courses:
  "fst (collectResults rs) = [] \<Longrightarrow> fst (snd (collectResults rs)) = []"
  by (induction rs rule: collectResults.induct) (auto split: prod.splits)

lemma table_bulkPut_Nil: "table_bulkPut key [] t = t"
  by (simp add: table_bulkPut_def)

lemma processFiles_events_ok:
  assumes "out_error (processFiles ical fs s) = None"
  shows "db_events (out_state (processFiles ical fs s))
           = table_bulkPut ev_id (fst (snd (draftsOf ical fs))) (db_events s)"
proof (cases "fs = []")
  case True
  then show ?thesis by (simp add: processFiles_def draftsOf_def table_bulkPut_Nil)
next
  case False
  obtain cs es rs where d: "draftsOf ical fs = (cs, es, rs)"
    by (cases "draftsOf ical fs") auto
  show ?thesis
  proof (cases "cs = []")
    case True
    with d have "es = []"
      using collectResults_no_courses [of "map (\<lambda>(env, file). (env, parseSelectedFile ical env file)) fs"]
      by (simp add: draftsOf_def)
    with True d False show ?thesis by (simp add: processFiles_def table_bulkPut_Nil)
  next
    case nonempty: False
    obtain r s1 where a: "addAllCourses cs s = (r, s1)"
      by (cases "addAllCourses cs s") auto
    from assms d a False nonempty have "r = None"
      by (cases r) (simp_all add: processFiles_def)
    with d a False nonempty addAllCourses_events [OF a] show ?thesis
      by (simp add: processFiles_def addEvents_def)
  qed
qed

lemma second_disjunct: "A \<or> B \<Longrightarrow> \<not> A \<Longrightarrow> B"
  by blast

text \<open>
  C1, as the code has it. No reconciliation keeps a completed status on an event it
  writes. After a file import that completes on a well-formed events table, every stored
  event is either a record stored before whose id no draft of the import carries, or a
  draft of the import, whose status is overdue or upcoming. After a scrape sync that
  completes, every stored event is either a record stored before that no scraped event
  was matched to, or has status overdue or upcoming.
\<close>

theorem reconciliation_recomputes_status:
  "(table_wf ev_id (db_events s) \<and> out_error (processFiles ical fs s) = None \<longrightarrow>
      (\<forall>e' \<in> set (db_events (out_state (processFiles ical fs s))).
          (e' \<in> set (db_events s) \<and> ev_id e' \<notin> set (map ev_id (fst (snd (draftsOf ical fs)))))
          \<or> (e' \<in> set (fst (snd (draftsOf ical fs))) \<and> ev_status e' \<noteq> COMPLETED)))
   \<and> (processScrapedData env courses events s = (None, s') \<longrightarrow>
      (\<forall>e' \<in> set (db_events s').
          (e' \<in> set (db_events s) \<and> \<not> matched_id (existingEventMap (db_events s)) events (ev_id e'))
          \<or> ev_status e' \<noteq> COMPLETED))"
proof (intro conjI impI ballI)
  fix e'
  assume h: "table_wf ev_id (db_events s) \<and> out_error (processFiles ical fs s) = None"
    and e': "e' \<in> set (db_events (out_state (processFiles ical fs s)))"
  let ?d = "fst (snd (draftsOf ical fs))"
  from h e' have "e' \<in> set (table_bulkPut ev_id ?d (db_events s))"
    by (simp add: processFiles_events_ok)
  with h have "e' \<in> set ?d \<or> (e' \<in> set (db_events s) \<and> ev_id e' \<notin> ev_id ` set ?d)"
    using set_bulkPut_wf [of ev_id "db_events s" e' ?d] by blast
  moreover have "\<forall>e \<in> set ?d. ev_status e \<noteq> COMPLETED"
    by (rule draftsOf_all) (rule transform_status)
  ultimately show "(e' \<in> set (db_events s) \<and> ev_id e' \<notin> set (map ev_id ?d))
          \<or> (e' \<in> set ?d \<and> ev_status e' \<noteq> COMPLETED)"
    by auto
next
  fix e'
  assume run: "processScrapedData env courses events s = (None, s')"
    and e': "e' \<in> set (db_events s')"
  from processScrapedData_events [OF run] obtain et seen where
    pe: "processEvents env (existingEventMap (db_events s)) 0 events (db_events s, {}) = (None, et, seen)" and
    ev: "db_events s' = deleteStale (existingEventMap (db_events s)) seen et"
    by blast
  from e' ev have "e' \<in> set et" by (simp add: deleteStale_filter)
  with processEvents_inv [OF pe]
  show "(e' \<in> set (db_events s) \<and> \<not> matched_id (existingEventMap (db_events s)) events (ev_id e'))
          \<or> ev_status e' \<noteq> COMPLETED"
    by blast
qed

theorem reconciliation_recomputes_status_witness:
  "table_wf ev_id (db_events marked_completed)
   \<and> out_error (processFiles sample_ical [(sample_import_env ''b'', file_one)] marked_completed) = None
   \<and> map ev_status (db_events marked_completed) = [COMPLETED]
   \<and> map ev_id (db_events marked_completed) = [''uid-hw4'']
   \<and> map ev_id (db_events imported_twice) = [''uid-hw4'']
   \<and> ev_status (hd (db_events imported_twice)) \<noteq> COMPLETED
   \<and> processScrapedData (sample_sync_env ''b'') [scraped_course ''101'' ''Math'' 1] [homework_12] marked_completed
       = (None, snd (processScrapedData (sample_sync_env ''b'') [scraped_course ''101'' ''Math'' 1]
                       [homework_12] marked_completed))
   \<and> ev_status (hd (db_events (snd (processScrapedData (sample_sync_env ''b'')
          [scraped_course ''101'' ''Math'' 1] [homework_12] marked_completed)))) \<noteq> COMPLETED"
proof -
  let ?fs = "[(sample_import_env ''b'', file_one)]"
  let ?r = "processScrapedData (sample_sync_env ''b'') [scraped_course ''101'' ''Math'' 1] [homework_12] marked_completed"
  note T = reconciliation_recomputes_status [of marked_completed sample_ical ?fs "sample_sync_env ''b''"
             "[scraped_course ''101'' ''Math'' 1]" "[homework_12]" "snd ?r"]
  have wf: "table_wf ev_id (db_events marked_completed)" by code_simp
  have ok: "out_error (processFiles sample_ical ?fs marked_completed) = None" by code_simp
  have st: "map ev_status (db_events marked_completed) = [COMPLETED]"
           "map ev_id (db_events marked_completed) = [''uid-hw4'']"
           "map ev_id (db_events imported_twice) = [''uid-hw4'']" by code_simp+
  have f: "fst ?r = None" by code_simp
  have run: "?r = (None, snd ?r)" using f by (metis prod.collapse)
  have m1: "hd (db_events imported_twice) \<in> set (db_events (out_state (processFiles sample_ical ?fs marked_completed)))"
    by code_simp
  have n1: "\<not> (hd (db_events imported_twice) \<in> set (db_events marked_completed)
              \<and> ev_id (hd (db_events imported_twice)) \<notin> set (map ev_id (fst (snd (draftsOf sample_ical ?fs)))))"
    by code_simp
  have m2: "hd (db_events (snd ?r)) \<in> set (db_events (snd ?r))" by code_simp
  have n2: "\<not> (hd (db_events (snd ?r)) \<in> set (db_events marked_completed)
              \<and> \<not> matched_id (existingEventMap (db_events marked_completed)) [homework_12]
                     (ev_id (hd (db_events (snd ?r)))))"
    by code_simp
  have a: "ev_status (hd (db_events imported_twice)) \<noteq> COMPLETED"
  proof -
    from T have "table_wf ev_id (db_events marked_completed)
        \<and> out_error (processFiles sample_ical ?fs marked_completed) = None \<longrightarrow>
      (\<forall>e' \<in> set (db_events (out_state (processFiles sample_ical ?fs marked_completed))).
          (e' \<in> set (db_events marked_completed) \<and> ev_id e' \<notin> set (map ev_id (fst (snd (draftsOf sample_ical ?fs)))))
          \<or> (e' \<in> set (fst (snd (draftsOf sample_ical ?fs))) \<and> ev_status e' \<noteq> COMPLETED))"
      by (rule conjunct1)
    from this [rule_format, OF conjI [OF wf ok] m1]
    have "hd (db_events imported_twice) \<in> set (fst (snd (draftsOf sample_ical ?fs)))
          \<and> ev_status (hd (db_events imported_twice)) \<noteq> COMPLETED"
      using n1 by (rule second_disjunct)
    then show ?thesis by (rule conjunct2)
  qed
  have b: "ev_status (hd (db_events (snd ?r))) \<noteq> COMPLETED"
  proof -
    from T have "?r = (None, snd ?r) \<longrightarrow>
      (\<forall>e' \<in> set (db_events (snd ?r)).
          (e' \<in> set (db_events marked_completed)
             \<and> \<not> matched_id (existingEventMap (db_events marked_completed)) [homework_12] (ev_id e'))
          \<or> ev_status e' \<noteq> COMPLETED)"
      by (rule conjunct2)
    from this [rule_format, OF run m2] show ?thesis
      using n2 by (rule second_disjunct)
  qed
  from wf ok st a run b show ?thesis
    by - (intro conjI; assumption)
qed

text \<open>
  The event of \<open>math.ics\<close> is imported, marked completed by the user, and the same file is
  imported again: its stored status is overdue afterwards.
\<close>

theorem completed_overwritten_counterexample:
  "map ev_id (db_events marked_completed) = [''uid-hw4'']
   \<and> map ev_status (db_events marked_completed) = [COMPLETED]
   \<and> map ev_id (db_events imported_twice) = [''uid-hw4'']
   \<and> map ev_status (db_events imported_twice) = [OVERDUE]"
  by code_simp

subsection \<open>Importing the same document twice\<close>

lemma same_content_iff:
  "same_content e1 e2 \<longleftrightarrow>
     ev_id e1 = ev_id e2 \<and> ev_title e1 = ev_title e2 \<and> ev_description e1 = ev_description e2
     \<and> ev_startDate e1 = ev_startDate e2 \<and> ev_endDate e1 = ev_endDate e2
     \<and> ev_eventType e1 = ev_eventType e2 \<and> ev_courseName e1 = ev_courseName e2
     \<and> ev_location e1 = ev_location e2 \<and> ev_isAllDay e1 = ev_isAllDay e2
     \<and> ev_recurrence e1 = ev_recurrence e2 \<and> ev_rawIcsData e1 = ev_rawIcsData e2"
  by (cases e1, cases e2) (auto simp: same_content_def)

lemma same_entry_iff:
  "same_entry e1 e2 \<longleftrightarrow>
     ev_id e1 = ev_id e2 \<and> ev_title e1 = ev_title e2 \<and> ev_description e1 = ev_description e2
     \<and> ev_startDate e1 = ev_startDate e2 \<and> ev_endDate e1 = ev_endDate e2
     \<and> ev_eventType e1 = ev_eventType e2
     \<and> ev_location e1 = ev_location e2 \<and> ev_isAllDay e1 = ev_isAllDay e2
     \<and> ev_recurrence e1 = ev_recurrence e2 \<and> ev_rawIcsData e1 = ev_rawIcsData e2"
  by (cases e1, cases e2) (auto simp: same_entry_def)

lemma same_content_id: "same_content e1 e2 \<Longrightarrow> ev_id e1 = ev_id e2"
  by (simp add: same_content_iff)

lemma same_entry_id: "same_entry e1 e2 \<Longrightarrow> ev_id e1 = ev_id e2"
  by (simp add: same_entry_iff)

lemma related_ids:
  assumes "\<And>x y. R x y \<Longrightarrow> ev_id x = ev_id y" and "list_all2 R xs ys"
  shows "map ev_id xs = map ev_id ys"
  using assms(2) by (induction rule: list_all2_induct) (simp_all add: assms(1))

text \<open>
  Converting one entry twice, under two course ids, names and colours, at two times: both
  conversions fail or both succeed, and then the events agree up to course and status,
  and on the course name too when the two names are equal.
\<close>

lemma transform_related:
  assumes "truthy (i_uid v)"
  shows "(\<exists>m1 m2. transformToCalendarEvent n1 f1 v a1 b1 c1 = Inl m1
                 \<and> transformToCalendarEvent n2 f2 v a2 b2 c2 = Inl m2)
       \<or> (\<exists>x1 x2. transformToCalendarEvent n1 f1 v a1 b1 c1 = Inr x1
                 \<and> transformToCalendarEvent n2 f2 v a2 b2 c2 = Inr x2
                 \<and> same_entry x1 x2 \<and> (b1 = b2 \<longrightarrow> same_content x1 x2))"
proof -
  from assms obtain u where u: "i_uid v = Some u" "u \<noteq> []"
    by (auto simp: truthy_def split: option.splits)
  show ?thesis
    by (cases "i_startDate v"; cases "i_endDate v")
       (simp_all add: transformToCalendarEvent_def same_content_iff same_entry_iff or_else_def u)
qed

lemma forEach_vevent_related:
  assumes "\<forall>v \<in> set vs. truthy (i_uid v)"
    and "list_all2 (\<lambda>x y. same_entry x y \<and> (b1 = b2 \<longrightarrow> same_content x y)) es1 es2"
  shows "list_all2 (\<lambda>x y. same_entry x y \<and> (b1 = b2 \<longrightarrow> same_content x y))
           (fst (forEach_vevent env1 a1 b1 c1 i vs (es1, errs1)))
           (fst (forEach_vevent env2 a2 b2 c2 i vs (es2, errs2)))"
  using assms
proof (induction vs arbitrary: i es1 es2 errs1 errs2)
  case Nil
  then show ?case by simp
next
  case (Cons v vs)
  from Cons.prems have uv: "truthy (i_uid v)" and rest: "\<forall>v \<in> set vs. truthy (i_uid v)" by simp_all
  from transform_related [OF uv, of "now_at env1 i" "uniqueId_at env1 i" a1 b1 c1
                                    "now_at env2 i" "uniqueId_at env2 i" a2 b2 c2]
  show ?case
  proof (elim disjE exE conjE)
    fix m1 m2
    assume "transformToCalendarEvent (now_at env1 i) (uniqueId_at env1 i) v a1 b1 c1 = Inl m1"
      and "transformToCalendarEvent (now_at env2 i) (uniqueId_at env2 i) v a2 b2 c2 = Inl m2"
    then show ?thesis using Cons.IH [OF rest Cons.prems(2)] by simp
  next
    fix x1 x2
    assume t: "transformToCalendarEvent (now_at env1 i) (uniqueId_at env1 i) v a1 b1 c1 = Inr x1"
      "transformToCalendarEvent (now_at env2 i) (uniqueId_at env2 i) v a2 b2 c2 = Inr x2"
      and se: "same_entry x1 x2" and sc: "b1 = b2 \<longrightarrow> same_content x1 x2"
    from se sc Cons.prems(2)
    have "list_all2 (\<lambda>x y. same_entry x y \<and> (b1 = b2 \<longrightarrow> same_content x y)) (es1 @ [x1]) (es2 @ [x2])"
      by (simp add: list_all2_appendI)
    from Cons.IH [OF rest this] t show ?thesis by simp
  qed
qed

lemma parseIcsFile_Inl:
  "ical content = Inl msg \<Longrightarrow> res_events (parseIcsFile ical env content a b c fn) = None"
  by (simp add: parseIcsFile_def)

text \<open>The events of a parse result, none for a failed one.\<close>

lemma parseSelectedFile_related:
  assumes doc: "f_readIcsFile f2 = f_readIcsFile f1"
    and uid: "\<forall>content vs. f_readIcsFile f1 = Inr content \<and> ical content = Inr vs
             \<longrightarrow> (\<forall>v \<in> set vs. truthy (i_uid v))"
  shows "list_all2 (\<lambda>x y. same_entry x y \<and> (f_courseName f1 = f_courseName f2 \<longrightarrow> same_content x y))
           (case parseSelectedFile ical env1 f1 of ParseOk n a b c es \<Rightarrow> es | ParseFailed n m \<Rightarrow> [])
           (case parseSelectedFile ical env2 f2 of ParseOk n a b c es \<Rightarrow> es | ParseFailed n m \<Rightarrow> [])"
proof (cases "f_readIcsFile f1")
  case (Inl msg)
  with doc show ?thesis by (simp add: parseSelectedFile_def)
next
  case (Inr content)
  with doc have r2: "f_readIcsFile f2 = Inr content" by simp
  show ?thesis
  proof (cases "ical content")
    case (Inl msg)
    then show ?thesis
      using Inr r2 by (simp add: parseSelectedFile_def parseIcsFile_Inl)
  next
    case inr: (Inr vs)
    with Inr uid have uids: "\<forall>v \<in> set vs. truthy (i_uid v)" by blast
    let ?e1 = "fst (forEach_vevent (imp_parser env1) (imp_generateId env1) (f_courseName f1)
                      (imp_generateRandomColor env1) 0 vs ([], []))"
    let ?e2 = "fst (forEach_vevent (imp_parser env2) (imp_generateId env2) (f_courseName f2)
                      (imp_generateRandomColor env2) 0 vs ([], []))"
    have rel: "list_all2 (\<lambda>x y. same_entry x y \<and> (f_courseName f1 = f_courseName f2 \<longrightarrow> same_content x y))
                 ?e1 ?e2"
      by (rule forEach_vevent_related [OF uids]) simp
    then have len: "(?e1 = []) = (?e2 = [])"
      by (auto dest: list_all2_lengthD)
    note p1 = parseIcsFile_events_Inr [of ical content vs "imp_parser env1" "imp_generateId env1"
                "f_courseName f1" "imp_generateRandomColor env1" "f_name f1", OF inr]
    note p2 = parseIcsFile_events_Inr [of ical content vs "imp_parser env2" "imp_generateId env2"
                "f_courseName f2" "imp_generateRandomColor env2" "f_name f2", OF inr]
    show ?thesis
    proof (cases "?e1 = []")
      case True
      with len have "?e2 = []" by simp
      with True p1 p2 Inr r2 show ?thesis by (simp add: parseSelectedFile_def Let_def)
    next
      case False
      with len have "?e2 \<noteq> []" by simp
      with False p1 p2 Inr r2 rel show ?thesis by (simp add: parseSelectedFile_def Let_def)
    qed
  qed
qed

lemma draftsOf_Cons:
  "fst (snd (draftsOf ical ((env, f) # fs))) =
     (case parseSelectedFile ical env f of ParseOk n a b c es \<Rightarrow> es | ParseFailed n m \<Rightarrow> [])
     @ fst (snd (draftsOf ical fs))"
  by (simp add: draftsOf_def split: ParsedResult.splits prod.splits)

lemma draftsOf_related:
  assumes "map (\<lambda>p. f_readIcsFile (snd p)) fs2 = map (\<lambda>p. f_readIcsFile (snd p)) fs1"
    and "\<forall>(env, f) \<in> set fs1. \<forall>content vs. f_readIcsFile f = Inr content \<and> ical content = Inr vs
             \<longrightarrow> (\<forall>v \<in> set vs. truthy (i_uid v))"
  shows "list_all2 (\<lambda>x y. same_entry x y
                      \<and> (map (\<lambda>p. f_courseName (snd p)) fs2 = map (\<lambda>p. f_courseName (snd p)) fs1
                           \<longrightarrow> same_content x y))
           (fst (snd (draftsOf ical fs1))) (fst (snd (draftsOf ical fs2)))"
  using assms
proof (induction fs1 arbitrary: fs2)
  case Nil
  then show ?case by (simp add: draftsOf_def)
next
  case (Cons p fs1)
  obtain env1 f1 where p: "p = (env1, f1)" by (cases p)
  from Cons.prems(1) p obtain env2 f2 rest2 where fs2: "fs2 = (env2, f2) # rest2"
    and doc: "f_readIcsFile f2 = f_readIcsFile f1"
    and rest: "map (\<lambda>p. f_readIcsFile (snd p)) rest2 = map (\<lambda>p. f_readIcsFile (snd p)) fs1"
    by (cases fs2) auto
  from Cons.prems(2) p have here: "\<forall>content vs. f_readIcsFile f1 = Inr content \<and> ical content = Inr vs
             \<longrightarrow> (\<forall>v \<in> set vs. truthy (i_uid v))"
    and there: "\<forall>(env, f) \<in> set fs1. \<forall>content vs. f_readIcsFile f = Inr content \<and> ical content = Inr vs
             \<longrightarrow> (\<forall>v \<in> set vs. truthy (i_uid v))"
    by auto
  let ?R = "\<lambda>x y. same_entry x y
              \<and> (map (\<lambda>p. f_courseName (snd p)) fs2 = map (\<lambda>p. f_courseName (snd p)) (p # fs1)
                   \<longrightarrow> same_content x y)"
  have "list_all2 (\<lambda>x y. same_entry x y
                      \<and> (map (\<lambda>p. f_courseName (snd p)) rest2 = map (\<lambda>p. f_courseName (snd p)) fs1
                           \<longrightarrow> same_content x y))
          (fst (snd (draftsOf ical fs1))) (fst (snd (draftsOf ical rest2)))"
    by (rule Cons.IH [OF rest there])
  then have tl: "list_all2 ?R (fst (snd (draftsOf ical fs1))) (fst (snd (draftsOf ical rest2)))"
    by (rule list_all2_mono) (simp add: fs2 p)
  have "list_all2 (\<lambda>x y. same_entry x y \<and> (f_courseName f1 = f_courseName f2 \<longrightarrow> same_content x y))
          (case parseSelectedFile ical env1 f1 of ParseOk n a b c es \<Rightarrow> es | ParseFailed n m \<Rightarrow> [])
          (case parseSelectedFile ical env2 f2 of ParseOk n a b c es \<Rightarrow> es | ParseFailed n m \<Rightarrow> [])"
    by (rule parseSelectedFile_related [OF doc here])
  then have hd: "list_all2 ?R
          (case parseSelectedFile ical env1 f1 of ParseOk n a b c es \<Rightarrow> es | ParseFailed n m \<Rightarrow> [])
          (case parseSelectedFile ical env2 f2 of ParseOk n a b c es \<Rightarrow> es | ParseFailed n m \<Rightarrow> [])"
    by (rule list_all2_mono) (simp add: fs2 p)
  have "list_all2 ?R
          ((case parseSelectedFile ical env1 f1 of ParseOk n a b c es \<Rightarrow> es | ParseFailed n m \<Rightarrow> [])
             @ fst (snd (draftsOf ical fs1)))
          ((case parseSelectedFile ical env2 f2 of ParseOk n a b c es \<Rightarrow> es | ParseFailed n m \<Rightarrow> [])
             @ fst (snd (draftsOf ical rest2)))"
    using hd tl by (rule list_all2_appendI)
  then show ?case
    by (simp only: p fs2 draftsOf_Cons)
qed

lemma table_get_mem:
  "table_wf key t \<Longrightarrow> x \<in> set t \<Longrightarrow> table_get key (key x) t = Some x"
  unfolding table_get_def table_wf_def
  by (induction t) auto

lemma table_get_put:
  "table_wf key t \<Longrightarrow>
   table_get key i (table_put key x t) = (if i = key x then Some x else table_get key i t)"
  unfolding table_get_def table_wf_def
  by (induction t) auto

lemma find_snoc:
  "find P (xs @ [x]) = (case find P xs of Some y \<Rightarrow> Some y | None \<Rightarrow> if P x then Some x else None)"
  by (induction xs) simp_all

lemma table_get_bulkPut:
  "table_wf key t \<Longrightarrow>
   table_get key i (table_bulkPut key xs t) =
     (case find (\<lambda>x. key x = i) (rev xs) of Some x \<Rightarrow> Some x | None \<Rightarrow> table_get key i t)"
proof (induction xs arbitrary: t)
  case Nil
  then show ?case by (simp add: table_bulkPut_def)
next
  case (Cons x xs)
  have step: "table_bulkPut key (x # xs) t = table_bulkPut key xs (table_put key x t)"
    by (simp add: table_bulkPut_def)
  have wf: "table_wf key (table_put key x t)"
    using Cons.prems by (rule table_wf_put)
  show ?case
    unfolding step Cons.IH [OF wf]
    by (simp add: table_get_put [OF Cons.prems] find_snoc split: option.splits)
qed

lemma find_related:
  assumes "list_all2 R xs ys" and "\<And>x y. R x y \<Longrightarrow> key x = key y"
  shows "rel_option R (find (\<lambda>x. key x = i) xs) (find (\<lambda>x. key x = i) ys)"
  using assms(1)
proof (induction rule: list_all2_induct)
  case Nil
  then show ?case by simp
next
  case (Cons x xs y ys)
  with assms(2) [of x y] show ?case by simp
qed

lemma tables_related:
  assumes wf1: "table_wf key t1" and wf2: "table_wf key t2"
    and keys: "set (map key t1) = set (map key t2)"
    and rel: "\<And>i. rel_option R (table_get key i t1) (table_get key i t2)"
  shows "list_all2 R t1 t2"
proof -
  have "map key t1 = map key t2"
    using wf1 wf2 keys
    by (intro sorted_distinct_set_unique) (simp_all add: table_wf_def strict_sorted_iff)
  then have len: "length t1 = length t2" and nth: "\<And>n. n < length t1 \<Longrightarrow> key (t1 ! n) = key (t2 ! n)"
    by (auto dest: map_eq_imp_length_eq) (metis length_map nth_map)
  show ?thesis
  proof (rule list_all2_all_nthI [OF len])
    fix n assume n: "n < length t1"
    then have g1: "table_get key (key (t1 ! n)) t1 = Some (t1 ! n)"
      by (intro table_get_mem [OF wf1]) simp
    from n len have g2: "table_get key (key (t2 ! n)) t2 = Some (t2 ! n)"
      by (intro table_get_mem [OF wf2]) simp
    from rel [of "key (t1 ! n)"] g1 g2 nth [OF n] show "R (t1 ! n) (t2 ! n)"
      by simp
  qed
qed

text \<open>
  The table after a second \<open>bulkPut\<close>, of drafts related one by one to those of the first,
  over a table related to the result of the first.
\<close>

lemma reimport_tables:
  fixes R :: "CalendarEvent \<Rightarrow> CalendarEvent \<Rightarrow> bool"
  assumes Rid: "\<And>x y. R x y \<Longrightarrow> ev_id x = ev_id y"
    and wf0: "table_wf ev_id t0"
    and drafts: "list_all2 R d1 d2"
    and btw: "list_all2 R (table_bulkPut ev_id d1 t0) t1'"
    and t2: "t2 = t1' \<or> t2 = table_bulkPut ev_id d2 t1'"
  shows "list_all2 R (table_bulkPut ev_id d1 t0) t2"
proof -
  define t1 where "t1 = table_bulkPut ev_id d1 t0"
  have wf1: "table_wf ev_id t1"
    unfolding t1_def using wf0 by (rule wf_bulkPut)
  have btw': "list_all2 R t1 t1'"
    using btw by (simp add: t1_def)
  have ids': "map ev_id t1' = map ev_id t1"
    using related_ids [of R, OF Rid btw'] by simp
  have wf1': "table_wf ev_id t1'"
    using wf1 ids' by (simp add: table_wf_def)
  have dids: "map ev_id d2 = map ev_id d1"
    using related_ids [of R, OF Rid drafts] by simp
  from t2 have "list_all2 R t1 t2"
  proof
    assume "t2 = t1'"
    with btw' show ?thesis by simp
  next
    assume t2: "t2 = table_bulkPut ev_id d2 t1'"
    have wf2: "table_wf ev_id t2"
      unfolding t2 using wf1' by (rule wf_bulkPut)
    have k1: "ev_id ` set t1 = ev_id ` set t0 \<union> ev_id ` set d1"
      unfolding t1_def by (rule keys_bulkPut)
    have k2: "ev_id ` set t2 = ev_id ` set t1' \<union> ev_id ` set d2"
      unfolding t2 by (rule keys_bulkPut)
    have s1: "ev_id ` set t1' = ev_id ` set t1"
      using ids' by (metis set_map)
    have s2: "ev_id ` set d2 = ev_id ` set d1"
      using dids by (metis set_map)
    have keys: "set (map ev_id t1) = set (map ev_id t2)"
      using k1 k2 s1 s2 by auto
    have pointwise: "rel_option R (table_get ev_id i t1) (table_get ev_id i t2)" for i
    proof -
      have g1: "table_get ev_id i t1 =
                  (case find (\<lambda>x. ev_id x = i) (rev d1) of Some x \<Rightarrow> Some x
                   | None \<Rightarrow> table_get ev_id i t0)"
        unfolding t1_def using wf0 by (rule table_get_bulkPut)
      have g2: "table_get ev_id i t2 =
                  (case find (\<lambda>x. ev_id x = i) (rev d2) of Some x \<Rightarrow> Some x
                   | None \<Rightarrow> table_get ev_id i t1')"
        unfolding t2 using wf1' by (rule table_get_bulkPut)
      have fr: "rel_option R (find (\<lambda>x. ev_id x = i) (rev d1)) (find (\<lambda>x. ev_id x = i) (rev d2))"
      proof -
        have "list_all2 R (rev d1) (rev d2)" using drafts by simp
        then show ?thesis by (rule find_related [where key = ev_id]) (rule Rid)
      qed
      have tr: "rel_option R (table_get ev_id i t1) (table_get ev_id i t1')"
        unfolding table_get_def using btw' by (rule find_related [where key = ev_id]) (rule Rid)
      show ?thesis
      proof (cases "find (\<lambda>x. ev_id x = i) (rev d2)")
        case None
        with fr have "find (\<lambda>x. ev_id x = i) (rev d1) = None"
          by (cases "find (\<lambda>x. ev_id x = i) (rev d1)") simp_all
        with None g2 tr show ?thesis by simp
      next
        case (Some x2)
        with fr obtain x1 where x1: "find (\<lambda>x. ev_id x = i) (rev d1) = Some x1" "R x1 x2"
          by (cases "find (\<lambda>x. ev_id x = i) (rev d1)") simp_all
        with Some g1 g2 show ?thesis by simp
      qed
    qed
    show ?thesis
      using wf1 wf2 keys pointwise by (rule tables_related)
  qed
  then show ?thesis by (simp add: t1_def)
qed

text \<open>
  C4, as the code has it. Let the same documents be selected a second time (what reading
  each file gives is the same; file names and extracted course names may differ), let
  every entry of every readable one carry a non-empty UID, let the first import have
  completed on a well-formed events table, and let the stored events have changed since
  at most in \<open>courseId\<close>, \<open>courseName\<close>, \<open>courseColor\<close> and \<open>status\<close> (a user marking them
  completed). Then the second import leaves the number of stored events and their ids
  unchanged, and every stored event agrees with its value after the first import on
  every property except \<open>courseId\<close>, \<open>courseColor\<close>, \<open>status\<close> and \<open>courseName\<close>. When the
  course names extracted at the second import are those of the first, and the stored
  course names had not changed, \<open>courseName\<close> is unchanged as well.
\<close>

theorem reimport_same_document:
  assumes wf0: "table_wf ev_id (db_events s0)"
    and docs: "map (\<lambda>p. f_readIcsFile (snd p)) fs2 = map (\<lambda>p. f_readIcsFile (snd p)) fs1"
    and uids: "\<forall>(env, f) \<in> set fs1. \<forall>content vs. f_readIcsFile f = Inr content \<and> ical content = Inr vs
                 \<longrightarrow> (\<forall>v \<in> set vs. truthy (i_uid v))"
    and ok1: "out_error (processFiles ical fs1 s0) = None"
    and between: "list_all2 same_entry (db_events (out_state (processFiles ical fs1 s0))) (db_events s1)"
  shows "length (db_events (out_state (processFiles ical fs2 s1)))
           = length (db_events (out_state (processFiles ical fs1 s0)))
       \<and> map ev_id (db_events (out_state (processFiles ical fs2 s1)))
           = map ev_id (db_events (out_state (processFiles ical fs1 s0)))
       \<and> list_all2 same_entry (db_events (out_state (processFiles ical fs1 s0)))
                               (db_events (out_state (processFiles ical fs2 s1)))
       \<and> (map (\<lambda>p. f_courseName (snd p)) fs2 = map (\<lambda>p. f_courseName (snd p)) fs1
            \<and> list_all2 same_content (db_events (out_state (processFiles ical fs1 s0))) (db_events s1)
          \<longrightarrow> list_all2 same_content (db_events (out_state (processFiles ical fs1 s0)))
                                      (db_events (out_state (processFiles ical fs2 s1))))"
proof -
  define d1 where "d1 = fst (snd (draftsOf ical fs1))"
  define d2 where "d2 = fst (snd (draftsOf ical fs2))"
  define t1' where "t1' = db_events s1"
  define t2 where "t2 = db_events (out_state (processFiles ical fs2 s1))"
  have t1: "db_events (out_state (processFiles ical fs1 s0)) = table_bulkPut ev_id d1 (db_events s0)"
    unfolding d1_def using ok1 by (rule processFiles_events_ok)
  have t2: "t2 = t1' \<or> t2 = table_bulkPut ev_id d2 t1'"
    using processFiles_events [of ical fs2 s1] by (simp add: t2_def t1'_def d2_def)
  have drafts: "list_all2 (\<lambda>x y. same_entry x y
                      \<and> (map (\<lambda>p. f_courseName (snd p)) fs2 = map (\<lambda>p. f_courseName (snd p)) fs1
                           \<longrightarrow> same_content x y)) d1 d2"
    unfolding d1_def d2_def using docs uids by (rule draftsOf_related)
  have de: "list_all2 same_entry d1 d2"
    using drafts by (rule list_all2_mono) simp
  have btw: "list_all2 same_entry (table_bulkPut ev_id d1 (db_events s0)) t1'"
    using between by (simp add: t1 t1'_def)
  have rel: "list_all2 same_entry (table_bulkPut ev_id d1 (db_events s0)) t2"
    using same_entry_id wf0 de btw t2 by (rule reimport_tables)
  have len: "length t2 = length (table_bulkPut ev_id d1 (db_events s0))"
    using rel by (auto dest: list_all2_lengthD)
  have ids: "map ev_id t2 = map ev_id (table_bulkPut ev_id d1 (db_events s0))"
    using related_ids [of same_entry, OF same_entry_id rel] by simp
  have named: "list_all2 same_content (table_bulkPut ev_id d1 (db_events s0)) t2"
    if names: "map (\<lambda>p. f_courseName (snd p)) fs2 = map (\<lambda>p. f_courseName (snd p)) fs1"
      and b: "list_all2 same_content (table_bulkPut ev_id d1 (db_events s0)) t1'"
  proof -
    have dc: "list_all2 same_content d1 d2"
      using drafts by (rule list_all2_mono) (simp add: names)
    show ?thesis
      using same_content_id wf0 dc b t2 by (rule reimport_tables)
  qed
  show ?thesis
    using len ids rel named unfolding t1 t2_def t1'_def by simp
qed

theorem reimport_same_document_witness:
  "table_wf ev_id (db_events empty_state)
   \<and> out_error (processFiles sample_ical [(sample_import_env ''a'', file_one)] empty_state) = None
   \<and> list_all2 same_content (db_events imported_once) (db_events marked_completed)
   \<and> length (db_events imported_twice) = length (db_events imported_once)
   \<and> map ev_id (db_events imported_twice) = map ev_id (db_events imported_once)
   \<and> list_all2 same_content (db_events imported_once) (db_events imported_twice)
   \<and> f_readIcsFile file_one_renamed = f_readIcsFile file_one
   \<and> length (db_events imported_renamed) = length (db_events imported_once)
   \<and> map ev_id (db_events imported_renamed) = map ev_id (db_events imported_once)
   \<and> list_all2 same_entry (db_events imported_once) (db_events imported_renamed)
   \<and> map ev_courseName (db_events imported_once) = [''Math'']
   \<and> map ev_courseName (db_events imported_renamed) = [''Math (1)'']"
proof -
  let ?fs1 = "[(sample_import_env ''a'', file_one)]"
  let ?fs2 = "[(sample_import_env ''b'', file_one)]"
  let ?fs3 = "[(sample_import_env ''b'', file_one_renamed)]"
  have wf0: "table_wf ev_id (db_events empty_state)" by code_simp
  have docs2: "map (\<lambda>p. f_readIcsFile (snd p)) ?fs2 = map (\<lambda>p. f_readIcsFile (snd p)) ?fs1" by simp
  have doc3: "f_readIcsFile file_one_renamed = f_readIcsFile file_one"
    by (simp add: file_one_renamed_def file_one_def)
  then have docs3: "map (\<lambda>p. f_readIcsFile (snd p)) ?fs3 = map (\<lambda>p. f_readIcsFile (snd p)) ?fs1" by simp
  have names2: "map (\<lambda>p. f_courseName (snd p)) ?fs2 = map (\<lambda>p. f_courseName (snd p)) ?fs1" by simp
  have one: "sample_ical ''doc-one'' = Inr [vevent_hw]" by (simp add: sample_ical_def)
  have uids: "\<forall>(env, f) \<in> set ?fs1. \<forall>content vs. f_readIcsFile f = Inr content \<and> sample_ical content = Inr vs
                 \<longrightarrow> (\<forall>v \<in> set vs. truthy (i_uid v))"
    using one by (auto simp: file_one_def vevent_hw_def truthy_def)
  have ok1: "out_error (processFiles sample_ical ?fs1 empty_state) = None" by code_simp
  have btw: "list_all2 same_content (db_events imported_once) (db_events marked_completed)"
    by code_simp
  have btw_e: "list_all2 same_entry (db_events imported_once) (db_events marked_completed)"
    by code_simp
  have between: "list_all2 same_entry (db_events (out_state (processFiles sample_ical ?fs1 empty_state)))
                   (db_events marked_completed)"
    using btw_e by (simp only: imported_once_def)
  have between_c: "list_all2 same_content (db_events (out_state (processFiles sample_ical ?fs1 empty_state)))
                   (db_events marked_completed)"
    using btw by (simp only: imported_once_def)
  note T2 = reimport_same_document [OF wf0 docs2 uids ok1 between]
  note T3 = reimport_same_document [OF wf0 docs3 uids ok1 between]
  have c2: "length (db_events imported_twice) = length (db_events imported_once)
       \<and> map ev_id (db_events imported_twice) = map ev_id (db_events imported_once)"
    using T2 by (simp only: imported_once_def imported_twice_def)
  have c2': "list_all2 same_content (db_events imported_once) (db_events imported_twice)"
  proof -
    from T2 have "map (\<lambda>p. f_courseName (snd p)) ?fs2 = map (\<lambda>p. f_courseName (snd p)) ?fs1
            \<and> list_all2 same_content (db_events (out_state (processFiles sample_ical ?fs1 empty_state)))
                  (db_events marked_completed)
          \<longrightarrow> list_all2 same_content (db_events (out_state (processFiles sample_ical ?fs1 empty_state)))
                  (db_events (out_state (processFiles sample_ical ?fs2 marked_completed)))"
      by (elim conjE)
    from this [rule_format, OF conjI [OF names2 between_c]] show ?thesis
      by (simp only: imported_once_def imported_twice_def)
  qed
  have c3: "length (db_events imported_renamed) = length (db_events imported_once)
       \<and> map ev_id (db_events imported_renamed) = map ev_id (db_events imported_once)
       \<and> list_all2 same_entry (db_events imported_once) (db_events imported_renamed)"
    using T3 by (simp only: imported_once_def imported_renamed_def)
  have n1: "map ev_courseName (db_events imported_once) = [''Math'']"
    and n3: "map ev_courseName (db_events imported_renamed) = [''Math (1)'']"
    by code_simp+
  from wf0 ok1 btw c2 c2' doc3 c3 n1 n3 show ?thesis
    by - (intro conjI; (elim conjE)?; assumption)
qed

text \<open>
  A file with one entry that has a UID and one that has none is imported, the first event
  is marked completed, and the file is imported again: three events are stored instead of
  two, the event with the UID has moved to the new course, and its status is overdue.
\<close>

theorem reimport_not_idempotent_counterexample:
  "map ev_id (db_events imported_two) = [''event-a-xx'', ''uid-hw4'']
   \<and> map ev_courseId (db_events imported_two) = [''course-a'', ''course-a'']
   \<and> map ev_status (db_events (markEventCompleted ''uid-hw4'' imported_two)) = [UPCOMING, COMPLETED]
   \<and> map ev_id (db_events (out_state (processFiles sample_ical [(sample_import_env ''b'', file_two)]
          (markEventCompleted ''uid-hw4'' imported_two))))
        = [''event-a-xx'', ''event-b-xx'', ''uid-hw4'']
   \<and> map ev_courseId (db_events (out_state (processFiles sample_ical [(sample_import_env ''b'', file_two)]
          (markEventCompleted ''uid-hw4'' imported_two))))
        = [''course-a'', ''course-b'', ''course-b'']
   \<and> map ev_status (db_events (out_state (processFiles sample_ical [(sample_import_env ''b'', file_two)]
          (markEventCompleted ''uid-hw4'' imported_two))))
        = [UPCOMING, UPCOMING, OVERDUE]"
  by code_simp

end
